theory Spec2Isabelle
  imports Main "HOL-Library.Sublist"
begin

section \<open>Data model\<close>

subsection \<open>Positions, symbols, configuration\<close>

text \<open>\<open>token.Position\<close> of the Go library: what \<open>fileSet.Position\<close> returns for an offset.\<close>

record token_Position =
  Filename :: string
  TLine :: nat
  TColumn :: nat

record Position =
  Line :: nat
  Column :: nat

record Symbol =
  Name :: string
  Kind :: string
  File :: string
  Start :: Position
  End :: Position
  Exported :: bool
  Package :: string
  SPosition :: token_Position

record Reference =
  RFile :: string
  RPosition :: token_Position

record Config =
  ProjectPath :: string
  OutputJSON :: bool
  Verbose :: bool
  Exclude :: "string list"
  IncludeTests :: bool

subsection \<open>The loader's view of a project (go/ast, go/types, go/packages)\<close>

text \<open>
  An identifier node: its identity (Go compares \<open>*ast.Ident\<close> pointers when it looks an
  identifier up in \<open>TypesInfo.Uses\<close>), its offset and its name.
\<close>

datatype ident = Ident (ident_id: nat) (NamePos: nat) (IName: string)

text \<open>\<open>(*ast.Ident).End\<close>: the offset plus the length of the name in bytes.\<close>

definition ident_End :: "ident \<Rightarrow> nat" where
  "ident_End i = NamePos i + length (IName i)"

datatype token = token_CONST | token_VAR | token_TYPE | token_IMPORT

text \<open>
  The syntax tree as a tagged sum over the node kinds the analyzer dispatches on. The two
  leading numbers of a declaration or specification are what its \<open>Pos()\<close> and \<open>End()\<close>
  return. \<open>Other\<close> stands for every other node kind (statements, expressions, field
  lists, import specifications, ...) with its children in walk order.
\<close>

datatype node =
    File ident "node list"
  | FuncDecl nat nat "node list" "ident option" "node list"
  | GenDecl nat nat token "node list"
  | TypeSpec nat nat "ident option" "node list"
  | ValueSpec nat nat "ident option list" "node list"
  | IdentNode ident
  | SelectorExpr node ident
  | Other "node list"

text \<open>The semantic object a use site resolves to (\<open>types.Object\<close>).\<close>

datatype objclass = Func | TypeName | Const | Var | OtherObject

record Object =
  OName :: string
  OPkg :: "string option"
  OClass :: objclass

record PackageT =
  PkgPath :: string
  PName :: string
  Syntax :: "node list"
  CompiledGoFiles :: "string list"
  Errors :: "string list"
  Uses :: "nat \<rightharpoonup> Object"

record Analyzer =
  config :: Config
  fileSet :: "nat \<Rightarrow> token_Position"
  packages :: "PackageT list"
  symbols :: "string \<rightharpoonup> Symbol"
  references :: "string \<rightharpoonup> Reference list"
  reachable :: "string set"
  mainPackages :: "PackageT list"

record AnalysisResult =
  ResProjectPath :: string
  TotalSymbols :: nat
  ReachableSymbols :: nat
  MainPackages :: nat
  OrphanedSymbols :: "Symbol list"
  ExcludedPackages :: "string list"
  IncludedTests :: bool

subsection \<open>Walking a tree (\<open>ast.Inspect\<close>)\<close>

definition optIdent :: "ident option \<Rightarrow> node list" where
  "optIdent i = (case i of None \<Rightarrow> [] | Some x \<Rightarrow> [IdentNode x])"

text \<open>The children of a node in the order \<open>ast.Walk\<close> visits them.\<close>

fun children :: "node \<Rightarrow> node list" where
  "children (File nm decls) = IdentNode nm # decls"
| "children (FuncDecl p e recv nm rest) = recv @ optIdent nm @ rest"
| "children (GenDecl p e tok specs) = specs"
| "children (TypeSpec p e nm rest) = optIdent nm @ rest"
| "children (ValueSpec p e nms rest) = concat (map optIdent nms) @ rest"
| "children (IdentNode i) = []"
| "children (SelectorExpr x sel) = [x, IdentNode sel]"
| "children (Other cs) = cs"

lemma size_in_node_list: "m \<in> set ms \<Longrightarrow> size (m::node) \<le> size_list size ms"
  by (induction ms) auto

lemma children_size: "m \<in> set (children n) \<Longrightarrow> size m < size n"
  by (cases n)
     (auto simp: optIdent_def less_Suc_eq_le trans_le_add1 trans_le_add2
           dest!: size_in_node_list split: option.splits)

text \<open>
  \<open>ast.Inspect\<close>: call \<open>f\<close> on the node; when it answers true, walk the children in
  order. The callback's captured variables are the threaded state.
\<close>

function Inspect :: "(node \<Rightarrow> 's \<Rightarrow> bool \<times> 's) \<Rightarrow> node \<Rightarrow> 's \<Rightarrow> 's" where
  "Inspect f n s =
     (let r = f n s in
      if fst r then fold (Inspect f) (children n) (snd r) else snd r)"
  by pat_completeness auto
termination
  by (relation "measure (\<lambda>(f, n, s). size n)") (auto dest: children_size)

declare Inspect.simps [simp del]


text \<open>The nodes of a tree in the order a walk that never prunes visits them.\<close>

function preorder :: "node \<Rightarrow> node list" where
  "preorder n = n # concat (map preorder (children n))"
  by pat_completeness auto
termination
  by (relation "measure size") (auto dest: children_size)

declare preorder.simps [simp del]

section \<open>Keys and object kinds\<close>

text \<open>\<open>fmt.Sprintf("%s.%s.%s", pkgPath, name, kind)\<close>\<close>

definition getSymbolKey :: "string \<Rightarrow> string \<Rightarrow> string \<Rightarrow> string" where
  "getSymbolKey pkgPath name kind = pkgPath @ ''.'' @ name @ ''.'' @ kind"

definition getObjectKind :: "Object \<Rightarrow> string" where
  "getObjectKind obj =
     (case OClass obj of
        Func \<Rightarrow> ''function''
      | TypeName \<Rightarrow> ''type''
      | Const \<Rightarrow> ''constant''
      | Var \<Rightarrow> ''variable''
      | OtherObject \<Rightarrow> ''unknown'')"

text \<open>
  The key a resolved use site refers to: the object's package path (empty when the
  object has no package), its name and its kind.
\<close>

definition objectKey :: "Object \<Rightarrow> string" where
  "objectKey obj =
     (let kind = getObjectKind obj;
          pkgPath = (case OPkg obj of None \<Rightarrow> [] | Some p \<Rightarrow> p)
      in getSymbolKey pkgPath (OName obj) kind)"

text \<open>
  \<open>ast.IsExported\<close> on names whose first character is ASCII: the name starts with an
  upper-case letter.
\<close>

definition IsExported :: "string \<Rightarrow> bool" where
  "IsExported name =
     (case name of [] \<Rightarrow> False
      | c # cs \<Rightarrow> 65 \<le> (of_char c :: nat) \<and> (of_char c :: nat) \<le> 90)"

section \<open>Loader adapter (analyzer.go)\<close>

datatype error = LoaderError string | Wrapped string error

text \<open>\<open>strings.Trim(pattern, "*")\<close> and \<open>strings.Contains\<close>.\<close>

definition Trim_star :: "string \<Rightarrow> string" where
  "Trim_star s = rev (dropWhile (\<lambda>c. c = CHR ''*'') (rev (dropWhile (\<lambda>c. c = CHR ''*'') s)))"

definition Contains :: "string \<Rightarrow> string \<Rightarrow> bool" where
  "Contains s substr = sublist substr s"

text \<open>
  \<open>isPackageExcluded\<close>; \<open>Match\<close> is the library's \<open>filepath.Match\<close>, reduced to its
  boolean result.
\<close>

fun isPackageExcluded_loop :: "(string \<Rightarrow> string \<Rightarrow> bool) \<Rightarrow> string list \<Rightarrow> string \<Rightarrow> bool" where
  "isPackageExcluded_loop Match [] pkgPath = False"
| "isPackageExcluded_loop Match (pattern # patterns) pkgPath =
     (if Match pattern pkgPath then True
      else if Contains pkgPath (Trim_star pattern) then True
      else isPackageExcluded_loop Match patterns pkgPath)"

definition isPackageExcluded :: "(string \<Rightarrow> string \<Rightarrow> bool) \<Rightarrow> Analyzer \<Rightarrow> string \<Rightarrow> bool" where
  "isPackageExcluded Match a pkgPath = isPackageExcluded_loop Match (Exclude (config a)) pkgPath"

text \<open>One round of the filter loop of \<open>loadProject\<close>: both \<open>continue\<close>s skip the append.\<close>

definition keepPackage :: "(string \<Rightarrow> string \<Rightarrow> bool) \<Rightarrow> Analyzer \<Rightarrow> PackageT \<Rightarrow> PackageT list \<Rightarrow> PackageT list" where
  "keepPackage Match a pkg validPkgs =
     (if length (Errors pkg) > 0 then validPkgs
      else if isPackageExcluded Match a (PkgPath pkg) then validPkgs
      else validPkgs @ [pkg])"

text \<open>
  \<open>loadProject\<close>. The outcome of \<open>packages.Load\<close> is an input: the packages and the
  error it returned (\<open>None\<close> is Go's \<open>nil\<close>).
\<close>

definition loadProject ::
  "(string \<Rightarrow> string \<Rightarrow> bool) \<Rightarrow> PackageT list \<times> string option \<Rightarrow> Analyzer \<Rightarrow> error + Analyzer" where
  "loadProject Match load a =
     (case snd load of
        Some err \<Rightarrow> Inl (Wrapped ''failed to load packages'' (LoaderError err))
      | None \<Rightarrow> Inr (a\<lparr>packages := fold (keepPackage Match a) (fst load) []\<rparr>))"

section \<open>Symbol extractor (symbols.go)\<close>

definition mkSymbol ::
  "Analyzer \<Rightarrow> PackageT \<Rightarrow> string \<Rightarrow> string \<Rightarrow> string \<Rightarrow> nat \<Rightarrow> nat \<Rightarrow> Symbol" where
  "mkSymbol a pkg name kind filename p e =
     (let startPos = fileSet a p; endPos = fileSet a e in
      \<lparr>Name = name, Kind = kind, File = filename,
       Start = \<lparr>Line = TLine startPos, Column = TColumn startPos\<rparr>,
       End = \<lparr>Line = TLine endPos, Column = TColumn endPos\<rparr>,
       Exported = IsExported name, Package = PkgPath pkg, SPosition = startPos\<rparr>)"

fun processFunctionDecl :: "PackageT \<Rightarrow> node \<Rightarrow> string \<Rightarrow> Analyzer \<Rightarrow> Analyzer" where
  "processFunctionDecl pkg (FuncDecl p e recv nm rest) filename a =
     (case nm of
        None \<Rightarrow> a
      | Some name \<Rightarrow>
          if IName name = ''_'' then a
          else
            let symbol = mkSymbol a pkg (IName name) ''function'' filename p e;
                key = getSymbolKey (PkgPath pkg) (IName name) ''function''
            in a\<lparr>symbols := (symbols a)(key \<mapsto> symbol)\<rparr>)"
| "processFunctionDecl pkg n filename a = a"

fun processTypeSpec :: "PackageT \<Rightarrow> node \<Rightarrow> string \<Rightarrow> Analyzer \<Rightarrow> Analyzer" where
  "processTypeSpec pkg (TypeSpec p e nm rest) filename a =
     (case nm of
        None \<Rightarrow> a
      | Some name \<Rightarrow>
          if IName name = ''_'' then a
          else
            let symbol = mkSymbol a pkg (IName name) ''type'' filename p e;
                key = getSymbolKey (PkgPath pkg) (IName name) ''type''
            in a\<lparr>symbols := (symbols a)(key \<mapsto> symbol)\<rparr>)"
| "processTypeSpec pkg n filename a = a"

text \<open>One round of the loop over \<open>spec.Names\<close>.\<close>

definition processValueName ::
  "PackageT \<Rightarrow> token \<Rightarrow> string \<Rightarrow> ident option \<Rightarrow> Analyzer \<Rightarrow> Analyzer" where
  "processValueName pkg tok filename nm a =
     (case nm of
        None \<Rightarrow> a
      | Some name \<Rightarrow>
          if IName name = ''_'' then a
          else
            let kind = (if tok = token_CONST then ''constant'' else ''variable'');
                symbol = mkSymbol a pkg (IName name) kind filename (NamePos name) (ident_End name);
                key = getSymbolKey (PkgPath pkg) (IName name) kind
            in a\<lparr>symbols := (symbols a)(key \<mapsto> symbol)\<rparr>)"

fun processValueSpec :: "PackageT \<Rightarrow> node \<Rightarrow> token \<Rightarrow> string \<Rightarrow> Analyzer \<Rightarrow> Analyzer" where
  "processValueSpec pkg (ValueSpec p e nms rest) tok filename a =
     fold (processValueName pkg tok filename) nms a"
| "processValueSpec pkg n tok filename a = a"

text \<open>One round of the loop over \<open>node.Specs\<close>: the type switch on the specification.\<close>

fun processSpec :: "PackageT \<Rightarrow> token \<Rightarrow> string \<Rightarrow> node \<Rightarrow> Analyzer \<Rightarrow> Analyzer" where
  "processSpec pkg tok filename (TypeSpec p e nm rest) a =
     processTypeSpec pkg (TypeSpec p e nm rest) filename a"
| "processSpec pkg tok filename (ValueSpec p e nms rest) a =
     processValueSpec pkg (ValueSpec p e nms rest) tok filename a"
| "processSpec pkg tok filename spec a = a"

fun processGenDecl :: "PackageT \<Rightarrow> node \<Rightarrow> string \<Rightarrow> Analyzer \<Rightarrow> Analyzer" where
  "processGenDecl pkg (GenDecl p e tok specs) filename a =
     fold (processSpec pkg tok filename) specs a"
| "processGenDecl pkg n filename a = a"

text \<open>The callback of \<open>findSymbolsInFile\<close>: it always answers true.\<close>

fun symbolVisitor :: "PackageT \<Rightarrow> string \<Rightarrow> node \<Rightarrow> Analyzer \<Rightarrow> bool \<times> Analyzer" where
  "symbolVisitor pkg filename (FuncDecl p e recv nm rest) a =
     (True, processFunctionDecl pkg (FuncDecl p e recv nm rest) filename a)"
| "symbolVisitor pkg filename (GenDecl p e tok specs) a =
     (True, processGenDecl pkg (GenDecl p e tok specs) filename a)"
| "symbolVisitor pkg filename n a = (True, a)"

definition findSymbolsInFile :: "PackageT \<Rightarrow> node \<Rightarrow> string \<Rightarrow> Analyzer \<Rightarrow> Analyzer" where
  "findSymbolsInFile pkg file filename a = Inspect (symbolVisitor pkg filename) file a"

text \<open>
  \<open>findSymbols\<close>: a tree whose index has no compiled file is skipped. The function's
  error result is always \<open>nil\<close>; the model returns the new analyzer state.
\<close>

definition findSymbolsInPackage :: "PackageT \<Rightarrow> Analyzer \<Rightarrow> Analyzer" where
  "findSymbolsInPackage pkg a =
     fold (\<lambda>(i, file) a.
             if i < length (CompiledGoFiles pkg)
             then findSymbolsInFile pkg file (CompiledGoFiles pkg ! i) a
             else a)
          (List.enumerate 0 (Syntax pkg)) a"

definition findSymbols :: "Analyzer \<Rightarrow> Analyzer" where
  "findSymbols a = fold findSymbolsInPackage (packages a) a"


section \<open>Reference extractor\<close>

definition addReference :: "PackageT \<Rightarrow> ident \<Rightarrow> Analyzer \<Rightarrow> Analyzer" where
  "addReference pkg node a =
     (case Uses pkg (ident_id node) of
        None \<Rightarrow> a
      | Some obj \<Rightarrow>
          let pos = fileSet a (NamePos node);
              key = objectKey obj;
              bucket = (case references a key of None \<Rightarrow> [] | Some rs \<Rightarrow> rs)
          in a\<lparr>references := (references a)(key \<mapsto> bucket @ [\<lparr>RFile = Filename pos, RPosition = pos\<rparr>])\<rparr>)"

definition processIdentReference :: "PackageT \<Rightarrow> ident \<Rightarrow> Analyzer \<Rightarrow> Analyzer" where
  "processIdentReference pkg node a = addReference pkg node a"

text \<open>\<open>processSelectorReference\<close> resolves the selector's tail \<open>node.Sel\<close>.\<close>

fun processSelectorReference :: "PackageT \<Rightarrow> node \<Rightarrow> Analyzer \<Rightarrow> Analyzer" where
  "processSelectorReference pkg (SelectorExpr x sel) a = addReference pkg sel a"
| "processSelectorReference pkg n a = a"

fun referenceVisitor :: "PackageT \<Rightarrow> node \<Rightarrow> Analyzer \<Rightarrow> bool \<times> Analyzer" where
  "referenceVisitor pkg (IdentNode i) a = (True, processIdentReference pkg i a)"
| "referenceVisitor pkg (SelectorExpr x sel) a =
     (True, processSelectorReference pkg (SelectorExpr x sel) a)"
| "referenceVisitor pkg n a = (True, a)"

definition findReferencesInFile :: "PackageT \<Rightarrow> node \<Rightarrow> Analyzer \<Rightarrow> Analyzer" where
  "findReferencesInFile pkg file a = Inspect (referenceVisitor pkg) file a"

definition findReferences :: "Analyzer \<Rightarrow> Analyzer" where
  "findReferences a =
     fold (\<lambda>pkg a. fold (findReferencesInFile pkg) (Syntax pkg) a) (packages a) a"

section \<open>Entry-point selector (analyzer.go, reachability.go)\<close>

definition identifyMainPackages :: "Analyzer \<Rightarrow> Analyzer" where
  "identifyMainPackages a =
     (let a1 = fold (\<lambda>pkg a. if PName pkg = ''main''
                              then a\<lparr>mainPackages := mainPackages a @ [pkg]\<rparr> else a)
                    (packages a) a
      in if length (mainPackages a1) = 0
         then fold (\<lambda>pkg a. a\<lparr>mainPackages := mainPackages a @ [pkg]\<rparr>) (packages a1) a1
         else a1)"

text \<open>Append a key to the queue and mark it reachable.\<close>

definition addRoot :: "string \<Rightarrow> string list \<times> Analyzer \<Rightarrow> string list \<times> Analyzer" where
  "addRoot key st = (fst st @ [key], (snd st)\<lparr>reachable := insert key (reachable (snd st))\<rparr>)"

definition addRootIfExists :: "string \<Rightarrow> string list \<times> Analyzer \<Rightarrow> string list \<times> Analyzer" where
  "addRootIfExists key st =
     (if symbols (snd st) key \<noteq> None then addRoot key st else st)"

text \<open>
  One round of the loop over the symbol table in \<open>findEntryPoints\<close>. A key the
  iteration yields always has an entry; the \<open>None\<close> branch keeps the function total.
\<close>

definition exportedStep :: "PackageT \<Rightarrow> string \<Rightarrow> string list \<times> Analyzer \<Rightarrow> string list \<times> Analyzer" where
  "exportedStep pkg symbolKey st =
     (case symbols (snd st) symbolKey of
        None \<Rightarrow> st
      | Some symbol \<Rightarrow>
          if Package symbol = PkgPath pkg \<and> Exported symbol
          then (if symbolKey \<notin> reachable (snd st) then addRoot symbolKey st else st)
          else st)"

text \<open>
  The loop over \<open>a.mainPackages\<close>. Go iterates over a map in an order that the runtime
  chooses anew for each \<open>range\<close>; \<open>sched i\<close> is the order in which the \<open>i\<close>-th loop over
  the symbol table yields its keys.
\<close>

fun entryLoop ::
  "(nat \<Rightarrow> string list) \<Rightarrow> nat \<Rightarrow> PackageT list \<Rightarrow> string list \<times> Analyzer \<Rightarrow> string list \<times> Analyzer" where
  "entryLoop sched i [] st = st"
| "entryLoop sched i (pkg # pkgs) st =
     (let mainKey = getSymbolKey (PkgPath pkg) ''main'' ''function'';
          st1 = addRootIfExists mainKey st;
          initKey = getSymbolKey (PkgPath pkg) ''init'' ''function'';
          st2 = addRootIfExists initKey st1;
          st3 = fold (exportedStep pkg) (sched i) st2
      in entryLoop sched (Suc i) pkgs st3)"

definition findEntryPoints :: "(nat \<Rightarrow> string list) \<Rightarrow> Analyzer \<Rightarrow> string list \<times> Analyzer" where
  "findEntryPoints sched a = entryLoop sched 0 (mainPackages a) ([], a)"

text \<open>An iteration order over the symbol table: every key, once.\<close>

definition rangeOrder :: "Analyzer \<Rightarrow> string list \<Rightarrow> bool" where
  "rangeOrder a ks \<longleftrightarrow> distinct ks \<and> set ks = dom (symbols a)"

section \<open>Reachability tracer (reachability.go)\<close>

text \<open>Does a specification of a general declaration declare the symbol?\<close>

fun specDeclares :: "Symbol \<Rightarrow> node \<Rightarrow> bool" where
  "specDeclares symbol (TypeSpec p e nm rest) =
     (case nm of None \<Rightarrow> False
      | Some name \<Rightarrow> IName name = Name symbol \<and> Kind symbol = ''type'')"
| "specDeclares symbol (ValueSpec p e nms rest) =
     list_ex (\<lambda>nm. case nm of None \<Rightarrow> False
                   | Some name \<Rightarrow> IName name = Name symbol \<and>
                       (Kind symbol = ''variable'' \<or> Kind symbol = ''constant'')) nms"
| "specDeclares symbol n = False"

text \<open>
  The callback of \<open>fileContainsSymbol\<close>; its state is the captured \<open>contains\<close>. On a
  match it sets the flag and answers false, so the walk does not descend.
\<close>

fun containsVisitor :: "Symbol \<Rightarrow> node \<Rightarrow> bool \<Rightarrow> bool \<times> bool" where
  "containsVisitor symbol (FuncDecl p e recv nm rest) contains =
     (case nm of
        None \<Rightarrow> (True, contains)
      | Some name \<Rightarrow>
          if IName name = Name symbol \<and> Kind symbol = ''function''
          then (False, True) else (True, contains))"
| "containsVisitor symbol (GenDecl p e tok specs) contains =
     (if list_ex (specDeclares symbol) specs then (False, True) else (True, contains))"
| "containsVisitor symbol n contains = (True, contains)"

definition fileContainsSymbol :: "node \<Rightarrow> Symbol \<Rightarrow> bool" where
  "fileContainsSymbol file symbol = Inspect (containsVisitor symbol) file False"

text \<open>Append the key of a resolved use site unless it is the symbol's own key.\<close>

definition addReferenced :: "PackageT \<Rightarrow> string \<Rightarrow> ident \<Rightarrow> string list \<Rightarrow> string list" where
  "addReferenced pkg symbolKey node referenced =
     (case Uses pkg (ident_id node) of
        None \<Rightarrow> referenced
      | Some obj \<Rightarrow>
          let refKey = objectKey obj
          in if refKey \<noteq> symbolKey then referenced @ [refKey] else referenced)"

fun referencedVisitor :: "PackageT \<Rightarrow> string \<Rightarrow> node \<Rightarrow> string list \<Rightarrow> bool \<times> string list" where
  "referencedVisitor pkg symbolKey (IdentNode i) referenced =
     (True, addReferenced pkg symbolKey i referenced)"
| "referencedVisitor pkg symbolKey (SelectorExpr x sel) referenced =
     (True, addReferenced pkg symbolKey sel referenced)"
| "referencedVisitor pkg symbolKey n referenced = (True, referenced)"

definition findReferencedSymbols :: "Analyzer \<Rightarrow> string \<Rightarrow> string list" where
  "findReferencedSymbols a symbolKey =
     (case symbols a symbolKey of
        None \<Rightarrow> []
      | Some symbol \<Rightarrow>
          let relevantPackages = filter (\<lambda>pkg. PkgPath pkg = Package symbol) (packages a)
          in fold (\<lambda>pkg referenced.
                     fold (\<lambda>file referenced.
                             if fileContainsSymbol file symbol
                             then Inspect (referencedVisitor pkg symbolKey) file referenced
                             else referenced)
                          (Syntax pkg) referenced)
                  relevantPackages [])"

text \<open>One round of the loop over \<open>referencedSymbols\<close>.\<close>

definition enqueueRef :: "string \<Rightarrow> Analyzer \<times> string list \<Rightarrow> Analyzer \<times> string list" where
  "enqueueRef refSymbol st =
     (if refSymbol \<notin> reachable (fst st)
      then ((fst st)\<lparr>reachable := insert refSymbol (reachable (fst st))\<rparr>, snd st @ [refSymbol])
      else st)"


subsection \<open>Termination of the traversal\<close>

text \<open>A walk whose callback never prunes folds the callback over the preorder listing.\<close>

lemma Inspect_no_prune:
  assumes "\<And>m t. fst (f m t)"
  shows "Inspect f n s = fold (\<lambda>m t. snd (f m t)) (preorder n) s"
proof (induction n arbitrary: s rule: preorder.induct)
  case (1 n)
  have step: "fold (Inspect f) cs t = fold (\<lambda>m t. snd (f m t)) (concat (map preorder cs)) t"
    if "set cs \<subseteq> set (children n)" for cs t
    using that
  proof (induction cs arbitrary: t)
    case Nil
    show ?case by simp
  next
    case (Cons c cs)
    from Cons.prems have "c \<in> set (children n)" by simp
    then have "Inspect f c t = fold (\<lambda>m t. snd (f m t)) (preorder c) t"
      by (rule "1.IH")
    moreover from Cons.prems have "set cs \<subseteq> set (children n)" by simp
    ultimately show ?case
      using Cons.IH by simp
  qed
  have "Inspect f n s = fold (Inspect f) (children n) (snd (f n s))"
    using assms by (subst Inspect.simps) (simp add: Let_def)
  also have "\<dots> = fold (\<lambda>m t. snd (f m t)) (concat (map preorder (children n))) (snd (f n s))"
    by (rule step) simp
  also have "\<dots> = fold (\<lambda>m t. snd (f m t)) (preorder n) s"
    by (subst preorder.simps) simp
  finally show ?case .
qed

text \<open>The keys of the use sites at one node, and in a whole file.\<close>

definition identRefs :: "PackageT \<Rightarrow> ident \<Rightarrow> string list" where
  "identRefs pkg i = (case Uses pkg (ident_id i) of None \<Rightarrow> [] | Some obj \<Rightarrow> [objectKey obj])"

fun nodeRefs :: "PackageT \<Rightarrow> node \<Rightarrow> string list" where
  "nodeRefs pkg (IdentNode i) = identRefs pkg i"
| "nodeRefs pkg (SelectorExpr x sel) = identRefs pkg sel"
| "nodeRefs pkg n = []"

definition fileRefs :: "PackageT \<Rightarrow> node \<Rightarrow> string list" where
  "fileRefs pkg file = concat (map (nodeRefs pkg) (preorder file))"

text \<open>Every key that any use site of any retained package resolves to.\<close>

definition refUniverse :: "Analyzer \<Rightarrow> string set" where
  "refUniverse a = (\<Union>pkg \<in> set (packages a). \<Union>file \<in> set (Syntax pkg). set (fileRefs pkg file))"

text \<open>The outgoing edges of a symbol in closed form.\<close>

definition edgesOf :: "Analyzer \<Rightarrow> string \<Rightarrow> string list" where
  "edgesOf a symbolKey =
     (case symbols a symbolKey of
        None \<Rightarrow> []
      | Some symbol \<Rightarrow>
          concat (map (\<lambda>pkg. concat (map (\<lambda>file.
                    if fileContainsSymbol file symbol
                    then filter (\<lambda>r. r \<noteq> symbolKey) (fileRefs pkg file) else [])
                  (Syntax pkg)))
            (filter (\<lambda>pkg. PkgPath pkg = Package symbol) (packages a))))"

lemma addReferenced_eq:
  "addReferenced pkg k i acc = acc @ filter (\<lambda>r. r \<noteq> k) (identRefs pkg i)"
  by (simp add: addReferenced_def identRefs_def Let_def split: option.splits)

lemma referencedVisitor_fst: "fst (referencedVisitor pkg k n acc)"
  by (cases n) simp_all

lemma referencedVisitor_snd:
  "snd (referencedVisitor pkg k n acc) = acc @ filter (\<lambda>r. r \<noteq> k) (nodeRefs pkg n)"
  by (cases n) (simp_all add: addReferenced_eq)

lemma fold_append_concat: "fold (\<lambda>x acc. acc @ h x) xs acc = acc @ concat (map h xs)"
  by (induction xs arbitrary: acc) simp_all

lemma Inspect_referenced:
  "Inspect (referencedVisitor pkg k) file acc = acc @ filter (\<lambda>r. r \<noteq> k) (fileRefs pkg file)"
proof -
  have "Inspect (referencedVisitor pkg k) file acc
        = fold (\<lambda>m t. t @ filter (\<lambda>r. r \<noteq> k) (nodeRefs pkg m)) (preorder file) acc"
    by (simp add: Inspect_no_prune referencedVisitor_fst referencedVisitor_snd)
  also have "\<dots> = acc @ concat (map (\<lambda>m. filter (\<lambda>r. r \<noteq> k) (nodeRefs pkg m)) (preorder file))"
    by (rule fold_append_concat)
  also have "\<dots> = acc @ filter (\<lambda>r. r \<noteq> k) (fileRefs pkg file)"
    by (simp add: fileRefs_def filter_concat comp_def)
  finally show ?thesis .
qed

lemma findReferencedSymbols_edgesOf: "findReferencedSymbols a k = edgesOf a k"
proof (cases "symbols a k")
  case None
  then show ?thesis by (simp add: findReferencedSymbols_def edgesOf_def)
next
  case (Some symbol)
  have inner: "fold (\<lambda>file referenced.
                  if fileContainsSymbol file symbol
                  then Inspect (referencedVisitor pkg k) file referenced else referenced)
                files acc
        = acc @ concat (map (\<lambda>file. if fileContainsSymbol file symbol
                    then filter (\<lambda>r. r \<noteq> k) (fileRefs pkg file) else []) files)"
    for pkg files acc
    by (induction files arbitrary: acc) (simp_all add: Inspect_referenced)
  have outer: "fold (\<lambda>pkg referenced. fold (\<lambda>file referenced.
                  if fileContainsSymbol file symbol
                  then Inspect (referencedVisitor pkg k) file referenced else referenced)
                (Syntax pkg) referenced) pkgs acc
        = acc @ concat (map (\<lambda>pkg. concat (map (\<lambda>file. if fileContainsSymbol file symbol
                    then filter (\<lambda>r. r \<noteq> k) (fileRefs pkg file) else []) (Syntax pkg))) pkgs)"
    for pkgs acc
    by (induction pkgs arbitrary: acc) (simp_all add: inner)
  show ?thesis
    using Some outer [of _ "[]"]
    by (simp add: findReferencedSymbols_def edgesOf_def Let_def)
qed

lemma edgesOf_subset: "set (edgesOf a k) \<subseteq> refUniverse a"
proof (cases "symbols a k")
  case None
  then show ?thesis by (simp add: edgesOf_def)
next
  case (Some symbol)
  show ?thesis
  proof
    fix r
    assume "r \<in> set (edgesOf a k)"
    then obtain pkg fl where "pkg \<in> set (packages a)" "fl \<in> set (Syntax pkg)"
      "r \<in> set (fileRefs pkg fl)"
      using Some by (auto simp: edgesOf_def split: if_splits)
    then show "r \<in> refUniverse a"
      by (auto simp: refUniverse_def)
  qed
qed

lemma finite_refUniverse: "finite (refUniverse a)"
  by (simp add: refUniverse_def)

lemma edgesOf_reachable_upd [simp]: "edgesOf (a\<lparr>reachable := R\<rparr>) k = edgesOf a k"
  by (simp add: edgesOf_def cong: option.case_cong)

lemma refUniverse_reachable_upd [simp]: "refUniverse (a\<lparr>reachable := R\<rparr>) = refUniverse a"
  by (simp add: refUniverse_def)

text \<open>The inner loop in closed form: the keys it appends are the new ones, each once.\<close>

fun newRefs :: "string set \<Rightarrow> string list \<Rightarrow> string list" where
  "newRefs R [] = []"
| "newRefs R (r # rs) = (if r \<in> R then newRefs R rs else r # newRefs (insert r R) rs)"

lemma set_newRefs: "set (newRefs R rs) = set rs - R"
  by (induction rs arbitrary: R) auto

lemma enqueueRef_pair:
  "enqueueRef r (a, q) =
     (if r \<in> reachable a then (a, q) else (a\<lparr>reachable := insert r (reachable a)\<rparr>, q @ [r]))"
  by (simp add: enqueueRef_def)

lemma fold_enqueueRef:
  "fold enqueueRef rs (a, q) = (a\<lparr>reachable := reachable a \<union> set rs\<rparr>, q @ newRefs (reachable a) rs)"
proof (induction rs arbitrary: a q)
  case Nil
  show ?case by simp
next
  case (Cons r rs)
  show ?case
  proof (cases "r \<in> reachable a")
    case True
    then have "insert r (reachable a \<union> set rs) = reachable a \<union> set rs" by auto
    with True show ?thesis by (simp add: enqueueRef_pair Cons.IH)
  next
    case False
    then show ?thesis by (simp add: enqueueRef_pair Cons.IH)
  qed
qed

text \<open>
  The loop of \<open>traceReachability\<close>: pop the head; skip it when visited; otherwise mark
  it visited, compute its references, and mark and enqueue the ones not yet reachable.
\<close>

function traceLoop :: "Analyzer \<Rightarrow> string list \<Rightarrow> string set \<Rightarrow> Analyzer" where
  "traceLoop a [] visited = a"
| "traceLoop a (current # queue) visited =
     (if current \<in> visited then traceLoop a queue visited
      else
        let referencedSymbols = findReferencedSymbols a current;
            st = fold enqueueRef referencedSymbols (a, queue)
        in traceLoop (fst st) (snd st) (insert current visited))"
  by pat_completeness auto
termination
proof (relation "measures [\<lambda>(a, q, v). card (refUniverse a - reachable a), \<lambda>(a, q, v). length q]",
       goal_cases)
  case 1
  show ?case by simp
next
  case (2 a current queue visited)
  show ?case by simp
next
  case (3 a current queue visited x xa)
  define rs where "rs = findReferencedSymbols a current"
  have sub: "set rs \<subseteq> refUniverse a"
    by (simp add: rs_def findReferencedSymbols_edgesOf edgesOf_subset)
  have xa: "xa = (a\<lparr>reachable := reachable a \<union> set rs\<rparr>, queue @ newRefs (reachable a) rs)"
    using 3 by (simp add: rs_def fold_enqueueRef)
  show ?case
  proof (cases "set rs \<subseteq> reachable a")
    case True
    then have "reachable a \<union> set rs = reachable a" by auto
    moreover from True have "set (newRefs (reachable a) rs) = {}"
      by (simp add: set_newRefs)
    then have "newRefs (reachable a) rs = []"
      by simp
    ultimately show ?thesis by (simp add: xa)
  next
    case False
    have "refUniverse a - (reachable a \<union> set rs) \<subset> refUniverse a - reachable a"
      using False sub by auto
    then have "card (refUniverse a - (reachable a \<union> set rs)) < card (refUniverse a - reachable a)"
      by (intro psubset_card_mono) (simp_all add: finite_refUniverse)
    then show ?thesis by (simp add: xa)
  qed
qed


text \<open>
  \<open>traceReachability\<close>: the queue starts as the entry points, the visited set empty.
  Its error result is always \<open>nil\<close>.
\<close>

definition traceReachability :: "(nat \<Rightarrow> string list) \<Rightarrow> Analyzer \<Rightarrow> Analyzer" where
  "traceReachability sched a =
     (let st = findEntryPoints sched a
      in traceLoop (snd st) (fst st) {})"

section \<open>Orphan selector (reachability.go)\<close>

definition isTestFunction :: "string \<Rightarrow> bool" where
  "isTestFunction name \<longleftrightarrow>
     prefix ''Test'' name \<or> prefix ''Benchmark'' name \<or> prefix ''Example'' name"

text \<open>One round of the loop over the symbol table in \<open>findOrphans\<close>.\<close>

definition orphanStep :: "Analyzer \<Rightarrow> string \<Rightarrow> Symbol list \<Rightarrow> Symbol list" where
  "orphanStep a key orphans =
     (case symbols a key of
        None \<Rightarrow> orphans
      | Some symbol \<Rightarrow>
          if isTestFunction (Name symbol) then orphans
          else if key \<notin> reachable a then orphans @ [symbol]
          else orphans)"

text \<open>\<open>findOrphans\<close>; \<open>ord\<close> is the order in which the loop yields the table's keys.\<close>

definition findOrphans :: "string list \<Rightarrow> Analyzer \<Rightarrow> Symbol list" where
  "findOrphans ord a = fold (orphanStep a) ord []"

section \<open>The pipeline (analyzer.go)\<close>

definition NewAnalyzer :: "Config \<Rightarrow> (nat \<Rightarrow> token_Position) \<Rightarrow> Analyzer" where
  "NewAnalyzer cfg fset =
     \<lparr>config = cfg, fileSet = fset, packages = [], symbols = Map.empty,
      references = Map.empty, reachable = {}, mainPackages = []\<rparr>"

text \<open>
  \<open>Analyze\<close>. Only \<open>loadProject\<close> can return an error; the other stages return \<open>nil\<close>,
  so their error branches are never taken.
\<close>

definition Analyze ::
  "(string \<Rightarrow> string \<Rightarrow> bool) \<Rightarrow> PackageT list \<times> string option \<Rightarrow> (nat \<Rightarrow> string list) \<Rightarrow> string list
     \<Rightarrow> Analyzer \<Rightarrow> error + AnalysisResult" where
  "Analyze Match load sched ord a =
     (case loadProject Match load a of
        Inl err \<Rightarrow> Inl (Wrapped ''loading project'' err)
      | Inr a1 \<Rightarrow>
          let a2 = findSymbols a1;
              a3 = findReferences a2;
              a4 = identifyMainPackages a3;
              a5 = traceReachability sched a4;
              orphans = findOrphans ord a5
          in Inr \<lparr>ResProjectPath = ProjectPath (config a5),
                  TotalSymbols = card (dom (symbols a5)),
                  ReachableSymbols = card (reachable a5),
                  MainPackages = length (mainPackages a5),
                  OrphanedSymbols = orphans,
                  ExcludedPackages = Exclude (config a5),
                  IncludedTests = IncludeTests (config a5)\<rparr>)"


section \<open>Example project states\<close>

definition exampleSymbol :: "string \<Rightarrow> string \<Rightarrow> string \<Rightarrow> Symbol" where
  "exampleSymbol pkgPath name kind =
     \<lparr>Name = name, Kind = kind, File = ''/p/main.go'',
      Start = \<lparr>Line = 1, Column = 1\<rparr>, End = \<lparr>Line = 1, Column = 2\<rparr>,
      Exported = IsExported name, Package = pkgPath,
      SPosition = \<lparr>Filename = ''/p/main.go'', TLine = 1, TColumn = 1\<rparr>\<rparr>"

definition exampleConfig :: Config where
  "exampleConfig =
     \<lparr>ProjectPath = ''/p'', OutputJSON = False, Verbose = False, Exclude = [], IncludeTests = False\<rparr>"

definition exampleFileSet :: "nat \<Rightarrow> token_Position" where
  "exampleFileSet p = \<lparr>Filename = ''/p/main.go'', TLine = 1, TColumn = p\<rparr>"

text \<open>
  A traced state with three symbols: \<open>main\<close> (reachable), \<open>TestFoo\<close> and \<open>unused\<close>.
\<close>

definition orphanExample :: Analyzer where
  "orphanExample =
     (NewAnalyzer exampleConfig exampleFileSet)
       \<lparr>symbols := [''p.main.function'' \<mapsto> exampleSymbol ''p'' ''main'' ''function'',
                    ''p.TestFoo.function'' \<mapsto> exampleSymbol ''p'' ''TestFoo'' ''function'',
                    ''p.unused.function'' \<mapsto> exampleSymbol ''p'' ''unused'' ''function''],
        reachable := {''p.main.function''}\<rparr>"

definition orphanExampleOrder :: "string list" where
  "orphanExampleOrder = [''p.unused.function'', ''p.main.function'', ''p.TestFoo.function'']"

section \<open>Properties of the orphan selector\<close>

text \<open>What one key contributes to the orphan list.\<close>

definition orphanOf :: "Analyzer \<Rightarrow> string \<Rightarrow> Symbol list" where
  "orphanOf a key =
     (case symbols a key of
        None \<Rightarrow> []
      | Some symbol \<Rightarrow>
          if \<not> isTestFunction (Name symbol) \<and> key \<notin> reachable a then [symbol] else [])"

lemma orphanStep_append: "orphanStep a key orphans = orphans @ orphanOf a key"
  by (simp add: orphanStep_def orphanOf_def split: option.splits)

lemma findOrphans_concat: "findOrphans ord a = concat (map (orphanOf a) ord)"
proof -
  have "fold (orphanStep a) ks acc = acc @ concat (map (orphanOf a) ks)" for ks acc
    by (induction ks arbitrary: acc) (simp_all add: orphanStep_append)
  then show ?thesis by (simp add: findOrphans_def)
qed

lemma set_findOrphans:
  assumes "set ord = dom (symbols a)"
  shows "set (findOrphans ord a) =
           {s. \<exists>k. symbols a k = Some s \<and> k \<notin> reachable a \<and> \<not> isTestFunction (Name s)}"
proof (intro set_eqI iffI)
  fix s
  assume "s \<in> set (findOrphans ord a)"
  then obtain k where "k \<in> set ord" "s \<in> set (orphanOf a k)"
    by (auto simp: findOrphans_concat)
  then have "symbols a k = Some s \<and> k \<notin> reachable a \<and> \<not> isTestFunction (Name s)"
    by (auto simp: orphanOf_def split: option.splits if_splits)
  then show "s \<in> {s. \<exists>k. symbols a k = Some s \<and> k \<notin> reachable a \<and> \<not> isTestFunction (Name s)}"
    by blast
next
  fix s
  assume "s \<in> {s. \<exists>k. symbols a k = Some s \<and> k \<notin> reachable a \<and> \<not> isTestFunction (Name s)}"
  then obtain k where k: "symbols a k = Some s" "k \<notin> reachable a" "\<not> isTestFunction (Name s)"
    by blast
  then have "k \<in> set ord" using assms by auto
  moreover from k have "s \<in> set (orphanOf a k)"
    by (simp add: orphanOf_def)
  ultimately show "s \<in> set (findOrphans ord a)"
    by (auto simp: findOrphans_concat)
qed

lemma length_findOrphans:
  "length (findOrphans ord a) =
     length (filter (\<lambda>k. \<exists>s. symbols a k = Some s \<and> \<not> isTestFunction (Name s) \<and> k \<notin> reachable a) ord)"
proof -
  have "length (concat (map (orphanOf a) ks)) =
        length (filter (\<lambda>k. \<exists>s. symbols a k = Some s \<and> \<not> isTestFunction (Name s) \<and> k \<notin> reachable a) ks)"
    for ks
    by (induction ks) (auto simp: orphanOf_def split: option.splits)
  then show ?thesis by (simp add: findOrphans_concat)
qed

text \<open>
  Claim C5. For every analyzer state and every order in which the symbol table yields
  its keys, the orphan list holds exactly the symbols whose key is in the table and not
  in the reachable set, without those whose name starts with \<open>Test\<close>, \<open>Benchmark\<close> or
  \<open>Example\<close>; it has one entry for each such key; and no entry has a test-shaped name,
  whatever its kind and whether or not it is reachable.
\<close>

theorem C5_orphan_output:
  assumes "rangeOrder a ord"
  shows "set (findOrphans ord a) =
           {s. \<exists>k. symbols a k = Some s \<and> k \<notin> reachable a} - {s. isTestFunction (Name s)}
         \<and> length (findOrphans ord a) =
           card {k. \<exists>s. symbols a k = Some s \<and> \<not> isTestFunction (Name s) \<and> k \<notin> reachable a}
         \<and> (\<forall>s \<in> set (findOrphans ord a).
              \<not> prefix ''Test'' (Name s) \<and> \<not> prefix ''Benchmark'' (Name s)
              \<and> \<not> prefix ''Example'' (Name s))"
proof -
  from assms have dist: "distinct ord" and dom: "set ord = dom (symbols a)"
    by (simp_all add: rangeOrder_def)
  have set_eq: "set (findOrphans ord a) =
      {s. \<exists>k. symbols a k = Some s \<and> k \<notin> reachable a} - {s. isTestFunction (Name s)}"
    unfolding set_findOrphans [OF dom] by blast
  let ?P = "\<lambda>k. \<exists>s. symbols a k = Some s \<and> \<not> isTestFunction (Name s) \<and> k \<notin> reachable a"
  have "set (filter ?P ord) = {k. ?P k}"
    using dom by auto
  moreover have "distinct (filter ?P ord)"
    using dist by simp
  ultimately have "length (filter ?P ord) = card {k. ?P k}"
    using distinct_card by fastforce
  then have len: "length (findOrphans ord a) = card {k. ?P k}"
    by (simp add: length_findOrphans)
  have "\<not> isTestFunction (Name s)" if "s \<in> set (findOrphans ord a)" for s
    using that set_eq by blast
  then have names: "\<forall>s \<in> set (findOrphans ord a).
      \<not> prefix ''Test'' (Name s) \<and> \<not> prefix ''Benchmark'' (Name s) \<and> \<not> prefix ''Example'' (Name s)"
    by (simp add: isTestFunction_def)
  from set_eq len names show ?thesis by blast
qed

lemma orphanExample_order: "rangeOrder orphanExample orphanExampleOrder"
  by (auto simp: rangeOrder_def orphanExample_def orphanExampleOrder_def NewAnalyzer_def)

theorem C5_orphan_output_witness:
  "rangeOrder orphanExample orphanExampleOrder
   \<and> findOrphans orphanExampleOrder orphanExample = [exampleSymbol ''p'' ''unused'' ''function'']
   \<and> set (findOrphans orphanExampleOrder orphanExample) =
       {s. \<exists>k. symbols orphanExample k = Some s \<and> k \<notin> reachable orphanExample}
       - {s. isTestFunction (Name s)}"
proof -
  have "findOrphans orphanExampleOrder orphanExample = [exampleSymbol ''p'' ''unused'' ''function'']"
    by (simp add: findOrphans_def orphanStep_def orphanExample_def orphanExampleOrder_def
        NewAnalyzer_def isTestFunction_def exampleSymbol_def)
  with C5_orphan_output [OF orphanExample_order] orphanExample_order show ?thesis
    by blast
qed


section \<open>Properties of the loader adapter\<close>

definition retained :: "(string \<Rightarrow> string \<Rightarrow> bool) \<Rightarrow> Analyzer \<Rightarrow> PackageT \<Rightarrow> bool" where
  "retained Match a pkg \<longleftrightarrow> Errors pkg = [] \<and> \<not> isPackageExcluded Match a (PkgPath pkg)"

lemma fold_keepPackage:
  "fold (keepPackage Match a) pkgs acc = acc @ filter (retained Match a) pkgs"
  by (induction pkgs arbitrary: acc) (simp_all add: keepPackage_def retained_def)

lemma loadProject_ok:
  "snd load = None \<Longrightarrow>
     loadProject Match load a = Inr (a\<lparr>packages := filter (retained Match a) (fst load)\<rparr>)"
  by (simp add: loadProject_def fold_keepPackage)

lemma loadProject_failed:
  "snd load = Some err \<Longrightarrow>
     loadProject Match load a = Inl (Wrapped ''failed to load packages'' (LoaderError err))"
  by (simp add: loadProject_def)

text \<open>A package that failed to type-check and one that loaded cleanly.\<close>

definition brokenPackage :: PackageT where
  "brokenPackage =
     \<lparr>PkgPath = ''p/broken'', PName = ''broken'', Syntax = [], CompiledGoFiles = [],
      Errors = [''undefined: x''], Uses = Map.empty\<rparr>"

definition cleanPackage :: PackageT where
  "cleanPackage =
     \<lparr>PkgPath = ''p/clean'', PName = ''clean'', Syntax = [], CompiledGoFiles = [],
      Errors = [], Uses = Map.empty\<rparr>"

text \<open>
  Claim C3, as stated, fails: a loader that returns no packages at all and no error does
  not abort the pipeline; the analysis goes on with no packages and returns a result.
\<close>

theorem C3_empty_load_counterexample:
  "Analyze (\<lambda>pattern path. False) ([], None) (\<lambda>i. []) []
     (NewAnalyzer exampleConfig exampleFileSet)
   = Inr \<lparr>ResProjectPath = ''/p'', TotalSymbols = 0, ReachableSymbols = 0, MainPackages = 0,
          OrphanedSymbols = [], ExcludedPackages = [], IncludedTests = False\<rparr>"
  by (simp add: Analyze_def loadProject_def NewAnalyzer_def exampleConfig_def findSymbols_def
      findReferences_def identifyMainPackages_def traceReachability_def findEntryPoints_def
      findOrphans_def Let_def)

text \<open>
  Claim C3, amended. When the loader call returns an error, the pipeline aborts with
  that error, wrapped, as its result. When it returns no error, whatever the package
  list (the empty one too), loading succeeds and the pipeline returns a result; the
  packages retained are those with no error of their own that match no exclusion
  pattern, so an error confined to a package only drops that package.
\<close>

theorem C3_load_failure:
  "(snd load = Some err \<longrightarrow>
      Analyze Match load sched ord a =
        Inl (Wrapped ''loading project'' (Wrapped ''failed to load packages'' (LoaderError err))))
   \<and> (snd load = None \<longrightarrow>
        loadProject Match load a =
          Inr (a\<lparr>packages := filter (\<lambda>pkg. Errors pkg = [] \<and>
                  \<not> isPackageExcluded Match a (PkgPath pkg)) (fst load)\<rparr>)
        \<and> (\<exists>r. Analyze Match load sched ord a = Inr r))"
proof (intro conjI impI)
  assume "snd load = Some err"
  then show "Analyze Match load sched ord a =
        Inl (Wrapped ''loading project'' (Wrapped ''failed to load packages'' (LoaderError err)))"
    by (simp add: Analyze_def loadProject_failed)
next
  assume none: "snd load = None"
  have "retained Match a = (\<lambda>pkg. Errors pkg = [] \<and> \<not> isPackageExcluded Match a (PkgPath pkg))"
    by (auto simp: retained_def)
  with loadProject_ok [OF none, of Match a]
  show "loadProject Match load a =
          Inr (a\<lparr>packages := filter (\<lambda>pkg. Errors pkg = [] \<and>
                  \<not> isPackageExcluded Match a (PkgPath pkg)) (fst load)\<rparr>)"
    by simp
  from loadProject_ok [OF none, of Match a]
  show "\<exists>r. Analyze Match load sched ord a = Inr r"
    by (simp add: Analyze_def Let_def)
qed

theorem C3_load_failure_witness:
  "Analyze (\<lambda>pattern path. False) ([], Some ''exit status 1'') (\<lambda>i. []) []
     (NewAnalyzer exampleConfig exampleFileSet)
   = Inl (Wrapped ''loading project''
            (Wrapped ''failed to load packages'' (LoaderError ''exit status 1'')))
   \<and> loadProject (\<lambda>pattern path. False) ([brokenPackage, cleanPackage], None)
        (NewAnalyzer exampleConfig exampleFileSet)
     = Inr ((NewAnalyzer exampleConfig exampleFileSet)\<lparr>packages := [cleanPackage]\<rparr>)"
proof -
  have "isPackageExcluded (\<lambda>pattern path. False) (NewAnalyzer exampleConfig exampleFileSet) path = False"
    for path
    by (simp add: isPackageExcluded_def NewAnalyzer_def exampleConfig_def)
  then show ?thesis
    using C3_load_failure [of "([], Some ''exit status 1'')" "''exit status 1''"
        "\<lambda>pattern path. False" "\<lambda>i. []" "[]" "NewAnalyzer exampleConfig exampleFileSet"]
      C3_load_failure [of "([brokenPackage, cleanPackage], None)" "[]"
        "\<lambda>pattern path. False" "\<lambda>i. []" "[]" "NewAnalyzer exampleConfig exampleFileSet"]
    by (simp add: brokenPackage_def cleanPackage_def)
qed


section \<open>Properties of the traversal\<close>

text \<open>
  The keys the loop newly marks when it starts with queue \<open>Q\<close> and reachable set \<open>R\<close>:
  the targets, outside \<open>R\<close>, of the edges of a queued or a newly marked key.
\<close>

inductive_set discovered :: "Analyzer \<Rightarrow> string set \<Rightarrow> string set \<Rightarrow> string set"
  for a :: Analyzer and Q :: "string set" and R :: "string set" where
    from_queue: "e \<in> Q \<Longrightarrow> r \<in> set (edgesOf a e) \<Longrightarrow> r \<notin> R \<Longrightarrow> r \<in> discovered a Q R"
  | from_discovered:
      "e \<in> discovered a Q R \<Longrightarrow> r \<in> set (edgesOf a e) \<Longrightarrow> r \<notin> R \<Longrightarrow> r \<in> discovered a Q R"

lemma discovered_fresh: "r \<in> discovered a Q R \<Longrightarrow> r \<notin> R"
  by (induction rule: discovered.induct) simp_all

text \<open>The invariant of the loop, relative to the state \<open>a0\<close> and queue \<open>Q0\<close> it started with.\<close>

definition traceInv :: "Analyzer \<Rightarrow> string set \<Rightarrow> Analyzer \<Rightarrow> string list \<Rightarrow> string set \<Rightarrow> bool" where
  "traceInv a0 Q0 a q V \<longleftrightarrow>
     a = a0\<lparr>reachable := reachable a\<rparr>
     \<and> reachable a0 \<subseteq> reachable a
     \<and> reachable a \<subseteq> reachable a0 \<union> discovered a0 Q0 (reachable a0)
     \<and> V \<subseteq> Q0 \<union> discovered a0 Q0 (reachable a0)
     \<and> set q \<subseteq> Q0 \<union> discovered a0 Q0 (reachable a0)
     \<and> Q0 \<union> (reachable a - reachable a0) \<subseteq> V \<union> set q
     \<and> (\<Union>v \<in> V. set (edgesOf a0 v)) \<subseteq> reachable a"

lemma traceInv_done:
  assumes "traceInv a0 Q0 a [] V"
  shows "a = a0\<lparr>reachable := reachable a0 \<union> discovered a0 Q0 (reachable a0)\<rparr>"
proof -
  let ?D = "discovered a0 Q0 (reachable a0)"
  from assms have rec: "a = a0\<lparr>reachable := reachable a\<rparr>"
    and lo: "reachable a0 \<subseteq> reachable a"
    and hi: "reachable a \<subseteq> reachable a0 \<union> ?D"
    and pend: "Q0 \<union> (reachable a - reachable a0) \<subseteq> V"
    and closed: "(\<Union>v \<in> V. set (edgesOf a0 v)) \<subseteq> reachable a"
    by (simp_all add: traceInv_def)
  have "r \<in> reachable a" if "r \<in> ?D" for r
    using that
  proof (induction rule: discovered.induct)
    case (from_queue e r)
    then have "e \<in> V" using pend by blast
    with from_queue closed show ?case by blast
  next
    case (from_discovered e r)
    then have "e \<in> reachable a - reachable a0"
      using discovered_fresh by blast
    then have "e \<in> V" using pend by blast
    with from_discovered closed show ?case by blast
  qed
  with lo hi have "reachable a = reachable a0 \<union> ?D" by blast
  with rec show ?thesis by simp
qed

lemma traceInv_skip:
  assumes "traceInv a0 Q0 a (current # queue) V" and "current \<in> V"
  shows "traceInv a0 Q0 a queue V"
  using assms unfolding traceInv_def by auto

lemma traceInv_expand:
  assumes inv: "traceInv a0 Q0 a (current # queue) V" and new: "current \<notin> V"
    and rs: "rs = edgesOf a current"
  shows "traceInv a0 Q0 (a\<lparr>reachable := reachable a \<union> set rs\<rparr>)
           (queue @ newRefs (reachable a) rs) (insert current V)"
proof -
  let ?D = "discovered a0 Q0 (reachable a0)"
  from inv have rec: "a = a0\<lparr>reachable := reachable a\<rparr>"
    and lo: "reachable a0 \<subseteq> reachable a"
    and hi: "reachable a \<subseteq> reachable a0 \<union> ?D"
    and vis: "V \<subseteq> Q0 \<union> ?D"
    and que: "set (current # queue) \<subseteq> Q0 \<union> ?D"
    and pend: "Q0 \<union> (reachable a - reachable a0) \<subseteq> V \<union> set (current # queue)"
    and closed: "(\<Union>v \<in> V. set (edgesOf a0 v)) \<subseteq> reachable a"
    by (simp_all add: traceInv_def)
  have "edgesOf a current = edgesOf a0 current"
    by (subst rec) simp
  with rs have rs0: "rs = edgesOf a0 current" by simp
  from que have cur: "current \<in> Q0 \<union> ?D" by simp
  have targets: "set rs \<subseteq> reachable a0 \<union> ?D"
  proof
    fix r assume r: "r \<in> set rs"
    show "r \<in> reachable a0 \<union> ?D"
    proof (cases "r \<in> reachable a0")
      case True
      then show ?thesis by simp
    next
      case False
      from cur have "r \<in> ?D"
      proof
        assume "current \<in> Q0"
        with r False show ?thesis
          unfolding rs0 by (blast intro: discovered.from_queue)
      next
        assume "current \<in> ?D"
        with r False show ?thesis
          unfolding rs0 by (blast intro: discovered.from_discovered)
      qed
      then show ?thesis by simp
    qed
  qed
  have c1: "a\<lparr>reachable := reachable a \<union> set rs\<rparr> = a0\<lparr>reachable := reachable a \<union> set rs\<rparr>"
    by (subst rec) simp
  have c2: "reachable a0 \<subseteq> reachable a \<union> set rs"
    using lo by blast
  have c3: "reachable a \<union> set rs \<subseteq> reachable a0 \<union> ?D"
    using hi targets by blast
  have c4: "insert current V \<subseteq> Q0 \<union> ?D"
    using vis cur by blast
  have c5: "set (queue @ newRefs (reachable a) rs) \<subseteq> Q0 \<union> ?D"
    using que targets lo by (auto simp: set_newRefs)
  have c6: "Q0 \<union> (reachable a \<union> set rs - reachable a0)
            \<subseteq> insert current V \<union> set (queue @ newRefs (reachable a) rs)"
    using pend by (auto simp: set_newRefs)
  have c7: "(\<Union>v \<in> insert current V. set (edgesOf a0 v)) \<subseteq> reachable a \<union> set rs"
    using closed rs0 by auto
  show ?thesis
    unfolding traceInv_def using c1 c2 c3 c4 c5 c6 c7 by simp
qed

lemma traceLoop_inv:
  "traceInv a0 Q0 a q V \<Longrightarrow>
     traceLoop a q V = a0\<lparr>reachable := reachable a0 \<union> discovered a0 Q0 (reachable a0)\<rparr>"
proof (induction a q V rule: traceLoop.induct)
  case (1 a visited)
  then show ?case by (simp add: traceInv_done)
next
  case (2 a current queue visited)
  show ?case
  proof (cases "current \<in> visited")
    case True
    with "2.prems" have "traceInv a0 Q0 a queue visited"
      by (simp add: traceInv_skip)
    with "2.IH"(1) [OF True] True show ?thesis by simp
  next
    case False
    define rs where "rs = findReferencedSymbols a current"
    define st where "st = fold enqueueRef rs (a, queue)"
    have st_eq: "st = (a\<lparr>reachable := reachable a \<union> set rs\<rparr>, queue @ newRefs (reachable a) rs)"
      by (simp add: st_def fold_enqueueRef)
    have "rs = edgesOf a current"
      by (simp add: rs_def findReferencedSymbols_edgesOf)
    with "2.prems" False
    have "traceInv a0 Q0 (fst st) (snd st) (insert current visited)"
      by (simp add: st_eq traceInv_expand)
    with "2.IH"(2) [OF False rs_def st_def]
    have "traceLoop (fst st) (snd st) (insert current visited)
          = a0\<lparr>reachable := reachable a0 \<union> discovered a0 Q0 (reachable a0)\<rparr>" .
    with False show ?thesis
      by (simp add: rs_def st_def Let_def)
  qed
qed

text \<open>The loop, started with an empty visited set, in closed form.\<close>

lemma traceLoop_closed:
  "traceLoop a q {} = a\<lparr>reachable := reachable a \<union> discovered a (set q) (reachable a)\<rparr>"
proof -
  have "traceInv a (set q) a q {}"
    by (simp add: traceInv_def)
  then show ?thesis by (rule traceLoop_inv)
qed


lemma discovered_mono_edges:
  assumes "\<And>k. edgesOf a k = edgesOf b k" and "r \<in> discovered a Q R"
  shows "r \<in> discovered b Q R"
  using assms(2)
proof (induction rule: discovered.induct)
  case (from_queue e r)
  then show ?case
    using assms(1) by (auto intro: discovered.from_queue)
next
  case (from_discovered e r)
  then show ?case
    using assms(1) by (auto intro: discovered.from_discovered)
qed

lemma discovered_cong_edges:
  assumes "\<And>k. edgesOf a k = edgesOf b k"
  shows "discovered a Q R = discovered b Q R"
proof (intro set_eqI iffI)
  fix r assume "r \<in> discovered a Q R"
  with assms show "r \<in> discovered b Q R" by (rule discovered_mono_edges)
next
  fix r assume "r \<in> discovered b Q R"
  moreover have "\<And>k. edgesOf b k = edgesOf a k" using assms by simp
  ultimately show "r \<in> discovered a Q R" by (rule discovered_mono_edges [rotated])
qed

lemma edgesOf_cong:
  "symbols a = symbols b \<Longrightarrow> packages a = packages b \<Longrightarrow> edgesOf a k = edgesOf b k"
  by (simp add: edgesOf_def cong: option.case_cong)

section \<open>Properties of the entry-point selector\<close>

text \<open>The roots of steps 1 and 2 (\<open>main\<close> and \<open>init\<close>) and of step 3 (exported symbols).\<close>

definition mainInitRoots :: "Analyzer \<Rightarrow> PackageT list \<Rightarrow> string set" where
  "mainInitRoots a pkgs =
     {k. \<exists>pkg \<in> set pkgs.
           (k = getSymbolKey (PkgPath pkg) ''main'' ''function''
            \<or> k = getSymbolKey (PkgPath pkg) ''init'' ''function'')
           \<and> symbols a k \<noteq> None}"

definition exportedIn :: "Analyzer \<Rightarrow> PackageT \<Rightarrow> string set \<Rightarrow> string set" where
  "exportedIn a pkg K =
     {k \<in> K. \<exists>s. symbols a k = Some s \<and> Package s = PkgPath pkg \<and> Exported s}"

definition exportedRoots :: "Analyzer \<Rightarrow> PackageT list \<Rightarrow> string set" where
  "exportedRoots a pkgs =
     {k. \<exists>pkg \<in> set pkgs. \<exists>s. symbols a k = Some s \<and> Package s = PkgPath pkg \<and> Exported s}"

text \<open>
  Every loop over the symbol table that \<open>findEntryPoints\<close> runs yields each key once.
\<close>

definition rangeSched :: "Analyzer \<Rightarrow> (nat \<Rightarrow> string list) \<Rightarrow> bool" where
  "rangeSched a sched \<longleftrightarrow> list_all (\<lambda>i. rangeOrder a (sched i)) [0 ..< length (mainPackages a)]"

text \<open>
  A state of the selector's loops: the analyzer is \<open>a0\<close> with reachable set \<open>R\<close>, and
  the queue holds the keys \<open>Q\<close>.
\<close>

definition rootsState :: "Analyzer \<Rightarrow> string list \<times> Analyzer \<Rightarrow> string set \<Rightarrow> string set \<Rightarrow> bool" where
  "rootsState a0 st Q R \<longleftrightarrow> snd st = a0\<lparr>reachable := R\<rparr> \<and> set (fst st) = Q"

lemma rootsState_addRootIfExists:
  assumes "rootsState a0 st Q R"
  shows "rootsState a0 (addRootIfExists k st)
           (Q \<union> {x. x = k \<and> symbols a0 k \<noteq> None}) (R \<union> {x. x = k \<and> symbols a0 k \<noteq> None})"
  using assms by (auto simp: rootsState_def addRootIfExists_def addRoot_def)

lemma rootsState_exportedStep:
  assumes "rootsState a0 st Q R"
  shows "rootsState a0 (exportedStep pkg k st)
           (Q \<union> (exportedIn a0 pkg {k} - R)) (R \<union> exportedIn a0 pkg {k})"
proof (cases "symbols a0 k")
  case None
  then have "exportedIn a0 pkg {k} = {}" by (auto simp: exportedIn_def)
  with None assms show ?thesis
    by (simp add: rootsState_def exportedStep_def)
next
  case (Some s)
  show ?thesis
  proof (cases "Package s = PkgPath pkg \<and> Exported s")
    case True
    with Some have ex: "exportedIn a0 pkg {k} = {k}" by (auto simp: exportedIn_def)
    show ?thesis
    proof (cases "k \<in> R")
      case True
      then have "insert k R = R" by auto
      with True Some \<open>Package s = PkgPath pkg \<and> Exported s\<close> assms show ?thesis
        by (simp add: rootsState_def exportedStep_def ex)
    next
      case False
      with Some \<open>Package s = PkgPath pkg \<and> Exported s\<close> assms show ?thesis
        by (simp add: rootsState_def exportedStep_def ex addRoot_def insert_Diff_if)
    qed
  next
    case False
    with Some have "exportedIn a0 pkg {k} = {}" by (auto simp: exportedIn_def)
    with False Some assms show ?thesis
      by (auto simp: rootsState_def exportedStep_def)
  qed
qed

lemma exportedIn_insert:
  "exportedIn a pkg (insert k K) = exportedIn a pkg {k} \<union> exportedIn a pkg K"
  by (auto simp: exportedIn_def)

lemma rootsState_fold_exportedStep:
  assumes "rootsState a0 st Q R"
  shows "rootsState a0 (fold (exportedStep pkg) ks st)
           (Q \<union> (exportedIn a0 pkg (set ks) - R)) (R \<union> exportedIn a0 pkg (set ks))"
  using assms
proof (induction ks arbitrary: st Q R)
  case Nil
  then show ?case by (simp add: exportedIn_def)
next
  case (Cons k ks)
  let ?E1 = "exportedIn a0 pkg {k}" and ?E2 = "exportedIn a0 pkg (set ks)"
  from Cons.prems have "rootsState a0 (exportedStep pkg k st) (Q \<union> (?E1 - R)) (R \<union> ?E1)"
    by (rule rootsState_exportedStep)
  then have "rootsState a0 (fold (exportedStep pkg) ks (exportedStep pkg k st))
      (Q \<union> (?E1 - R) \<union> (?E2 - (R \<union> ?E1))) (R \<union> ?E1 \<union> ?E2)"
    by (rule Cons.IH)
  moreover have "Q \<union> (?E1 - R) \<union> (?E2 - (R \<union> ?E1)) = Q \<union> (exportedIn a0 pkg (set (k # ks)) - R)"
    by (auto simp: exportedIn_insert [of a0 pkg k "set ks"])
  moreover have "R \<union> ?E1 \<union> ?E2 = R \<union> exportedIn a0 pkg (set (k # ks))"
    by (auto simp: exportedIn_insert [of a0 pkg k "set ks"])
  ultimately show ?case by simp
qed

lemma mainInitRoots_Cons:
  "mainInitRoots a (pkg # pkgs) =
     {x. x = getSymbolKey (PkgPath pkg) ''main'' ''function'' \<and>
         symbols a (getSymbolKey (PkgPath pkg) ''main'' ''function'') \<noteq> None}
     \<union> {x. x = getSymbolKey (PkgPath pkg) ''init'' ''function'' \<and>
         symbols a (getSymbolKey (PkgPath pkg) ''init'' ''function'') \<noteq> None}
     \<union> mainInitRoots a pkgs"
  by (auto simp: mainInitRoots_def)

lemma exportedRoots_Cons:
  "exportedRoots a (pkg # pkgs) = exportedIn a pkg (dom (symbols a)) \<union> exportedRoots a pkgs"
  by (auto simp: exportedRoots_def exportedIn_def)

lemma rootsState_entryLoop:
  assumes "rootsState a0 st Q R"
    and "\<And>j. i \<le> j \<Longrightarrow> j < i + length pkgs \<Longrightarrow> set (sched j) = dom (symbols a0)"
  shows "rootsState a0 (entryLoop sched i pkgs st)
           (Q \<union> mainInitRoots a0 pkgs \<union> (exportedRoots a0 pkgs - R))
           (R \<union> mainInitRoots a0 pkgs \<union> exportedRoots a0 pkgs)"
  using assms
proof (induction pkgs arbitrary: i st Q R)
  case Nil
  then show ?case by (simp add: mainInitRoots_def exportedRoots_def)
next
  case (Cons pkg pkgs)
  let ?mk = "getSymbolKey (PkgPath pkg) ''main'' ''function''"
  let ?ik = "getSymbolKey (PkgPath pkg) ''init'' ''function''"
  let ?M = "{x. x = ?mk \<and> symbols a0 ?mk \<noteq> None}"
  let ?I = "{x. x = ?ik \<and> symbols a0 ?ik \<noteq> None}"
  let ?E = "exportedIn a0 pkg (dom (symbols a0))"
  define st1 where "st1 = addRootIfExists ?mk st"
  define st2 where "st2 = addRootIfExists ?ik st1"
  define st3 where "st3 = fold (exportedStep pkg) (sched i) st2"
  have s1: "rootsState a0 st1 (Q \<union> ?M) (R \<union> ?M)"
    unfolding st1_def using Cons.prems(1) by (rule rootsState_addRootIfExists)
  have s2: "rootsState a0 st2 (Q \<union> ?M \<union> ?I) (R \<union> ?M \<union> ?I)"
    unfolding st2_def using s1 by (rule rootsState_addRootIfExists)
  have "set (sched i) = dom (symbols a0)"
    using Cons.prems(2) [of i] by simp
  with rootsState_fold_exportedStep [OF s2, of pkg "sched i"]
  have s3: "rootsState a0 st3 (Q \<union> ?M \<union> ?I \<union> (?E - (R \<union> ?M \<union> ?I))) (R \<union> ?M \<union> ?I \<union> ?E)"
    by (simp add: st3_def)
  have rest: "\<And>j. Suc i \<le> j \<Longrightarrow> j < Suc i + length pkgs \<Longrightarrow> set (sched j) = dom (symbols a0)"
    using Cons.prems(2) by simp
  have "rootsState a0 (entryLoop sched (Suc i) pkgs st3)
      (Q \<union> ?M \<union> ?I \<union> (?E - (R \<union> ?M \<union> ?I)) \<union> mainInitRoots a0 pkgs
         \<union> (exportedRoots a0 pkgs - (R \<union> ?M \<union> ?I \<union> ?E)))
      (R \<union> ?M \<union> ?I \<union> ?E \<union> mainInitRoots a0 pkgs \<union> exportedRoots a0 pkgs)"
    using s3 rest by (rule Cons.IH)
  moreover have "Q \<union> ?M \<union> ?I \<union> (?E - (R \<union> ?M \<union> ?I)) \<union> mainInitRoots a0 pkgs
         \<union> (exportedRoots a0 pkgs - (R \<union> ?M \<union> ?I \<union> ?E))
       = Q \<union> mainInitRoots a0 (pkg # pkgs) \<union> (exportedRoots a0 (pkg # pkgs) - R)"
    unfolding mainInitRoots_Cons exportedRoots_Cons by blast
  moreover have "R \<union> ?M \<union> ?I \<union> ?E \<union> mainInitRoots a0 pkgs \<union> exportedRoots a0 pkgs
       = R \<union> mainInitRoots a0 (pkg # pkgs) \<union> exportedRoots a0 (pkg # pkgs)"
    unfolding mainInitRoots_Cons exportedRoots_Cons by blast
  moreover have "entryLoop sched i (pkg # pkgs) st = entryLoop sched (Suc i) pkgs st3"
    by (simp add: st1_def st2_def st3_def Let_def)
  ultimately show ?case by simp
qed

text \<open>The queue and the reachable set that \<open>findEntryPoints\<close> returns.\<close>

definition rootQueue :: "Analyzer \<Rightarrow> string set" where
  "rootQueue a =
     mainInitRoots a (mainPackages a) \<union> (exportedRoots a (mainPackages a) - reachable a)"

definition rootMarks :: "Analyzer \<Rightarrow> string set" where
  "rootMarks a =
     reachable a \<union> mainInitRoots a (mainPackages a) \<union> exportedRoots a (mainPackages a)"

lemma rangeSched_dom:
  "rangeSched a sched \<Longrightarrow> j < length (mainPackages a) \<Longrightarrow> set (sched j) = dom (symbols a)"
  by (simp add: rangeSched_def list_all_iff rangeOrder_def)

lemma findEntryPoints_closed:
  assumes "rangeSched a sched"
  shows "snd (findEntryPoints sched a) = a\<lparr>reachable := rootMarks a\<rparr>"
    and "set (fst (findEntryPoints sched a)) = rootQueue a"
proof -
  have "rootsState a ([], a) {} (reachable a)"
    by (simp add: rootsState_def)
  moreover have "\<And>j. 0 \<le> j \<Longrightarrow> j < 0 + length (mainPackages a) \<Longrightarrow> set (sched j) = dom (symbols a)"
    using assms by (simp add: rangeSched_dom)
  ultimately have "rootsState a (entryLoop sched 0 (mainPackages a) ([], a))
      ({} \<union> mainInitRoots a (mainPackages a) \<union> (exportedRoots a (mainPackages a) - reachable a))
      (reachable a \<union> mainInitRoots a (mainPackages a) \<union> exportedRoots a (mainPackages a))"
    by (rule rootsState_entryLoop)
  then show "snd (findEntryPoints sched a) = a\<lparr>reachable := rootMarks a\<rparr>"
    and "set (fst (findEntryPoints sched a)) = rootQueue a"
    by (simp_all add: rootsState_def findEntryPoints_def rootMarks_def rootQueue_def)
qed

text \<open>The reachable set after tracing, in closed form.\<close>

definition tracedSet :: "Analyzer \<Rightarrow> string set" where
  "tracedSet a = rootMarks a \<union> discovered a (rootQueue a) (rootMarks a)"

lemma traceReachability_closed:
  assumes "rangeSched a sched"
  shows "traceReachability sched a = a\<lparr>reachable := tracedSet a\<rparr>"
proof -
  let ?a1 = "a\<lparr>reachable := rootMarks a\<rparr>"
  have "traceReachability sched a = traceLoop ?a1 (fst (findEntryPoints sched a)) {}"
    by (simp add: traceReachability_def Let_def findEntryPoints_closed(1) [OF assms])
  also have "\<dots> = ?a1\<lparr>reachable := reachable ?a1
      \<union> discovered ?a1 (set (fst (findEntryPoints sched a))) (reachable ?a1)\<rparr>"
    by (rule traceLoop_closed)
  also have "discovered ?a1 (set (fst (findEntryPoints sched a))) (reachable ?a1)
      = discovered a (rootQueue a) (rootMarks a)"
    by (simp add: findEntryPoints_closed(2) [OF assms] discovered_cong_edges [of ?a1 a])
  finally show ?thesis
    by (simp add: tracedSet_def)
qed


section \<open>An example program\<close>

text \<open>
  One package \<open>app\<close> named \<open>main\<close> with one file:
  \<^verbatim>\<open>
  package main
  func main() { used() }
  func used() {}
  func unused() {}
  var Exported = 1
  \<close>
\<close>

definition appFile :: node where
  "appFile =
     File (Ident 0 8 ''main'')
       [FuncDecl 14 36 [] (Some (Ident 1 19 ''main''))
          [Other [], Other [Other [Other [IdentNode (Ident 2 28 ''used''), Other []]]]],
        FuncDecl 38 52 [] (Some (Ident 3 43 ''used'')) [Other [], Other []],
        FuncDecl 54 70 [] (Some (Ident 4 59 ''unused'')) [Other [], Other []],
        GenDecl 72 88 token_VAR [ValueSpec 76 88 [Some (Ident 5 76 ''Exported'')] [Other []]]]"

definition appPackage :: PackageT where
  "appPackage =
     \<lparr>PkgPath = ''app'', PName = ''main'', Syntax = [appFile],
      CompiledGoFiles = [''/p/main.go''], Errors = [],
      Uses = [2 \<mapsto> \<lparr>OName = ''used'', OPkg = Some ''app'', OClass = Func\<rparr>]\<rparr>"

text \<open>The analyzer after loading, symbol extraction and entry-point package selection.\<close>

definition appLoaded :: Analyzer where
  "appLoaded = (NewAnalyzer exampleConfig exampleFileSet)\<lparr>packages := [appPackage]\<rparr>"

definition appState :: Analyzer where
  "appState = identifyMainPackages (findSymbols appLoaded)"

text \<open>Two orders in which the symbol table may yield its four keys.\<close>

definition appOrder1 :: "string list" where
  "appOrder1 = [''app.main.function'', ''app.used.function'', ''app.unused.function'',
                ''app.Exported.variable'']"

definition appOrder2 :: "string list" where
  "appOrder2 = [''app.Exported.variable'', ''app.unused.function'', ''app.used.function'',
                ''app.main.function'']"

lemma appState_eq:
  "appState = appLoaded\<lparr>symbols :=
     [''app.main.function'' \<mapsto> mkSymbol appLoaded appPackage ''main'' ''function'' ''/p/main.go'' 14 36,
      ''app.used.function'' \<mapsto> mkSymbol appLoaded appPackage ''used'' ''function'' ''/p/main.go'' 38 52,
      ''app.unused.function'' \<mapsto> mkSymbol appLoaded appPackage ''unused'' ''function'' ''/p/main.go'' 54 70,
      ''app.Exported.variable'' \<mapsto> mkSymbol appLoaded appPackage ''Exported'' ''variable'' ''/p/main.go'' 76 84],
     mainPackages := [appPackage]\<rparr>"
  by (simp add: appState_def identifyMainPackages_def findSymbols_def appLoaded_def NewAnalyzer_def
      findSymbolsInPackage_def appPackage_def enumerate_eq_zip findSymbolsInFile_def Inspect.simps
      appFile_def Let_def getSymbolKey_def optIdent_def mkSymbol_def processValueName_def
      ident_End_def)

lemma appState_symbols:
  "symbols appState =
     [''app.main.function'' \<mapsto> mkSymbol appLoaded appPackage ''main'' ''function'' ''/p/main.go'' 14 36,
      ''app.used.function'' \<mapsto> mkSymbol appLoaded appPackage ''used'' ''function'' ''/p/main.go'' 38 52,
      ''app.unused.function'' \<mapsto> mkSymbol appLoaded appPackage ''unused'' ''function'' ''/p/main.go'' 54 70,
      ''app.Exported.variable'' \<mapsto> mkSymbol appLoaded appPackage ''Exported'' ''variable'' ''/p/main.go'' 76 84]"
  by (simp add: appState_eq)

lemma appState_mainPackages: "mainPackages appState = [appPackage]"
  by (simp add: appState_eq)

lemma appState_packages: "packages appState = [appPackage]"
  by (simp add: appState_eq appLoaded_def)

lemma appState_reachable: "reachable appState = {}"
  by (simp add: appState_eq appLoaded_def NewAnalyzer_def)

lemma appState_queue:
  "fst (findEntryPoints (\<lambda>i. appOrder1) appState) = [''app.main.function'', ''app.Exported.variable'']"
  unfolding appState_eq by code_simp

lemma appState_traced:
  "reachable (traceReachability (\<lambda>i. appOrder1) appState)
     = {''app.main.function'', ''app.Exported.variable'', ''app.used.function''}"
  unfolding appState_eq by code_simp

lemma appState_sched1: "rangeSched appState (\<lambda>i. appOrder1)"
  by (auto simp: rangeSched_def rangeOrder_def appState_symbols appState_mainPackages appOrder1_def)

lemma appState_sched2: "rangeSched appState (\<lambda>i. appOrder2)"
  by (auto simp: rangeSched_def rangeOrder_def appState_symbols appState_mainPackages appOrder2_def)

section \<open>Claims about the tracer\<close>

text \<open>
  Claim C7. For a fixed analyzer state (packages, syntax trees, use-resolution maps,
  symbol table), two runs of the tracer that differ in the order in which each loop over
  the symbol table yields its keys end with reachable sets of the same membership.
\<close>

theorem C7_reachable_deterministic:
  assumes "rangeSched a sched1" and "rangeSched a sched2"
  shows "reachable (traceReachability sched1 a) = reachable (traceReachability sched2 a)"
  by (simp add: traceReachability_closed [OF assms(1)] traceReachability_closed [OF assms(2)])

theorem C7_reachable_deterministic_witness:
  "rangeSched appState (\<lambda>i. appOrder1) \<and> rangeSched appState (\<lambda>i. appOrder2)
   \<and> fst (findEntryPoints (\<lambda>i. appOrder1) appState) = [''app.main.function'', ''app.Exported.variable'']
   \<and> reachable (traceReachability (\<lambda>i. appOrder1) appState)
       = {''app.main.function'', ''app.Exported.variable'', ''app.used.function''}
   \<and> reachable (traceReachability (\<lambda>i. appOrder2) appState)
       = {''app.main.function'', ''app.Exported.variable'', ''app.used.function''}"
proof -
  from C7_reachable_deterministic [OF appState_sched1 appState_sched2]
    appState_queue appState_traced appState_sched1 appState_sched2
  show ?thesis by simp
qed


lemma rootQueue_subset_rootMarks: "rootQueue a \<subseteq> rootMarks a"
  by (auto simp: rootQueue_def rootMarks_def)

lemma rootMarks_subset_tracedSet: "rootMarks a \<subseteq> tracedSet a"
  by (simp add: tracedSet_def)

text \<open>
  Claim C8. After tracing, every key the entry-point selector put on the queue is in the
  reachable set; and for every entry-point package, the key of its \<open>main\<close> function, the
  key of its \<open>init\<close> function and the key of each of its exported symbols is in the
  reachable set whenever it names a symbol of the table.
\<close>

theorem C8_roots_reachable:
  assumes "rangeSched a sched"
  shows "set (fst (findEntryPoints sched a)) \<subseteq> reachable (traceReachability sched a)
         \<and> (\<forall>pkg \<in> set (mainPackages a). \<forall>k.
               symbols a k \<noteq> None
               \<and> (k = getSymbolKey (PkgPath pkg) ''main'' ''function''
                  \<or> k = getSymbolKey (PkgPath pkg) ''init'' ''function''
                  \<or> (\<exists>s. symbols a k = Some s \<and> Package s = PkgPath pkg \<and> Exported s))
               \<longrightarrow> k \<in> reachable (traceReachability sched a))"
proof -
  have r: "reachable (traceReachability sched a) = tracedSet a"
    by (simp add: traceReachability_closed [OF assms])
  have "set (fst (findEntryPoints sched a)) \<subseteq> tracedSet a"
    using rootQueue_subset_rootMarks [of a] rootMarks_subset_tracedSet [of a]
    by (simp add: findEntryPoints_closed(2) [OF assms])
  moreover have "k \<in> tracedSet a"
    if "pkg \<in> set (mainPackages a)" and "symbols a k \<noteq> None"
      and "k = getSymbolKey (PkgPath pkg) ''main'' ''function''
           \<or> k = getSymbolKey (PkgPath pkg) ''init'' ''function''
           \<or> (\<exists>s. symbols a k = Some s \<and> Package s = PkgPath pkg \<and> Exported s)"
    for pkg k
  proof -
    from that have "k \<in> mainInitRoots a (mainPackages a) \<or> k \<in> exportedRoots a (mainPackages a)"
      unfolding mainInitRoots_def exportedRoots_def by blast
    then have "k \<in> rootMarks a"
      by (auto simp: rootMarks_def)
    then show ?thesis
      using rootMarks_subset_tracedSet by blast
  qed
  ultimately show ?thesis
    unfolding r by blast
qed

theorem C8_roots_reachable_witness:
  "rangeSched appState (\<lambda>i. appOrder1)
   \<and> fst (findEntryPoints (\<lambda>i. appOrder1) appState) = [''app.main.function'', ''app.Exported.variable'']
   \<and> ''app.main.function'' \<in> reachable (traceReachability (\<lambda>i. appOrder1) appState)
   \<and> ''app.Exported.variable'' \<in> reachable (traceReachability (\<lambda>i. appOrder1) appState)"
  using C8_roots_reachable [OF appState_sched1] appState_sched1 appState_queue
  by simp

text \<open>
  Claim C9. Two analyzer states that agree on the packages, the symbol table, the
  entry-point packages and the reachable set they start with, and differ in anything
  else (the reference table among it), end tracing with the same reachable set and
  yield the same set of orphans, whatever the iteration orders of their runs; with the
  same order the orphan lists are equal.
\<close>

theorem C9_reference_table_unused:
  assumes "packages a = packages b" and "symbols a = symbols b"
    and "mainPackages a = mainPackages b" and "reachable a = reachable b"
    and "rangeSched a sa" and "rangeSched b sb" and "rangeOrder a oa" and "rangeOrder b ob"
  shows "reachable (traceReachability sa a) = reachable (traceReachability sb b)
         \<and> set (findOrphans oa (traceReachability sa a)) = set (findOrphans ob (traceReachability sb b))
         \<and> findOrphans oa (traceReachability sa a) = findOrphans oa (traceReachability sb b)"
proof -
  have marks: "rootMarks a = rootMarks b"
    using assms(2-4) by (simp add: rootMarks_def mainInitRoots_def exportedRoots_def)
  have queue: "rootQueue a = rootQueue b"
    using assms(2-4) by (simp add: rootQueue_def mainInitRoots_def exportedRoots_def)
  have "discovered a (rootQueue a) (rootMarks a) = discovered b (rootQueue a) (rootMarks a)"
    using assms(1,2) by (intro discovered_cong_edges edgesOf_cong)
  with marks queue have traced: "tracedSet a = tracedSet b"
    by (simp add: tracedSet_def)
  have ta: "traceReachability sa a = a\<lparr>reachable := tracedSet a\<rparr>"
    by (rule traceReachability_closed [OF assms(5)])
  have tb: "traceReachability sb b = b\<lparr>reachable := tracedSet b\<rparr>"
    by (rule traceReachability_closed [OF assms(6)])
  have r: "reachable (traceReachability sa a) = reachable (traceReachability sb b)"
    by (simp add: ta tb traced)
  have "set oa = dom (symbols (traceReachability sa a))"
    using assms(7) by (simp add: ta rangeOrder_def)
  moreover have "set ob = dom (symbols (traceReachability sb b))"
    using assms(8) by (simp add: tb rangeOrder_def)
  ultimately have s: "set (findOrphans oa (traceReachability sa a))
      = set (findOrphans ob (traceReachability sb b))"
    by (simp add: set_findOrphans) (simp add: ta tb traced assms(2))
  have "orphanOf (traceReachability sa a) = orphanOf (traceReachability sb b)"
    by (rule ext) (simp add: orphanOf_def ta tb traced assms(2) cong: option.case_cong)
  then have l: "findOrphans oa (traceReachability sa a) = findOrphans oa (traceReachability sb b)"
    by (simp add: findOrphans_concat)
  from r s l show ?thesis by blast
qed

text \<open>The example state with a reference table that records one use of \<open>unused\<close>.\<close>

definition appStateRefs :: Analyzer where
  "appStateRefs =
     appState\<lparr>references :=
       [''app.unused.function'' \<mapsto> [\<lparr>RFile = ''/p/main.go'', RPosition = exampleFileSet 28\<rparr>]]\<rparr>"

lemma appState_order1: "rangeOrder appState appOrder1"
  by (auto simp: rangeOrder_def appState_symbols appOrder1_def)

lemma appState_order2: "rangeOrder appState appOrder2"
  by (auto simp: rangeOrder_def appState_symbols appOrder2_def)

theorem C9_reference_table_unused_witness:
  "references appState ''app.unused.function'' = None
   \<and> references appStateRefs ''app.unused.function''
       = Some [\<lparr>RFile = ''/p/main.go'', RPosition = exampleFileSet 28\<rparr>]
   \<and> reachable (traceReachability (\<lambda>i. appOrder2) appStateRefs)
       = {''app.main.function'', ''app.Exported.variable'', ''app.used.function''}
   \<and> set (findOrphans appOrder1 (traceReachability (\<lambda>i. appOrder1) appState))
       = set (findOrphans appOrder2 (traceReachability (\<lambda>i. appOrder2) appStateRefs))"
proof -
  have h1: "packages appState = packages appStateRefs" "symbols appState = symbols appStateRefs"
    "mainPackages appState = mainPackages appStateRefs" "reachable appState = reachable appStateRefs"
    by (simp_all add: appStateRefs_def)
  have h2: "rangeSched appStateRefs (\<lambda>i. appOrder2)"
    using appState_sched2 by (simp add: rangeSched_def rangeOrder_def appStateRefs_def)
  have h3: "rangeOrder appStateRefs appOrder2"
    using appState_order2 by (simp add: rangeOrder_def appStateRefs_def)
  note c = C9_reference_table_unused [OF h1 appState_sched1 h2 appState_order1 h3]
  have r1: "references appState ''app.unused.function'' = None"
    by (simp add: appState_eq appLoaded_def NewAnalyzer_def)
  have r2: "references appStateRefs ''app.unused.function''
       = Some [\<lparr>RFile = ''/p/main.go'', RPosition = exampleFileSet 28\<rparr>]"
    by (simp add: appStateRefs_def)
  from c have "reachable (traceReachability (\<lambda>i. appOrder1) appState)
      = reachable (traceReachability (\<lambda>i. appOrder2) appStateRefs)"
    by (rule conjunct1)
  with appState_traced
  have r3: "reachable (traceReachability (\<lambda>i. appOrder2) appStateRefs)
       = {''app.main.function'', ''app.Exported.variable'', ''app.used.function''}"
    by simp
  from c have r4: "set (findOrphans appOrder1 (traceReachability (\<lambda>i. appOrder1) appState))
       = set (findOrphans appOrder2 (traceReachability (\<lambda>i. appOrder2) appStateRefs))"
    by blast
  from r1 r2 r3 r4 show ?thesis by blast
qed


section \<open>Library mode\<close>

lemma fold_collect_main:
  "fold (\<lambda>pkg a. if PName pkg = ''main'' then a\<lparr>mainPackages := mainPackages a @ [pkg]\<rparr> else a)
        pkgs a
   = a\<lparr>mainPackages := mainPackages a @ filter (\<lambda>pkg. PName pkg = ''main'') pkgs\<rparr>"
  by (induction pkgs arbitrary: a) simp_all

lemma fold_collect_all:
  "fold (\<lambda>pkg a. a\<lparr>mainPackages := mainPackages a @ [pkg]\<rparr>) pkgs a
   = a\<lparr>mainPackages := mainPackages a @ pkgs\<rparr>"
  by (induction pkgs arbitrary: a) simp_all

lemma identifyMainPackages_closed:
  "identifyMainPackages a =
     (if mainPackages a @ filter (\<lambda>pkg. PName pkg = ''main'') (packages a) = []
      then a\<lparr>mainPackages := packages a\<rparr>
      else a\<lparr>mainPackages := mainPackages a @ filter (\<lambda>pkg. PName pkg = ''main'') (packages a)\<rparr>)"
  by (simp add: identifyMainPackages_def fold_collect_main fold_collect_all Let_def)

text \<open>
  A library: one package \<open>lib\<close>, not named \<open>main\<close>, with one file:
  \<^verbatim>\<open>
  package lib
  func init() {}
  func main() {}
  func helper() {}
  func Public() {}
  \<close>
\<close>

definition libFile :: node where
  "libFile =
     File (Ident 0 8 ''lib'')
       [FuncDecl 13 27 [] (Some (Ident 1 18 ''init'')) [Other [], Other []],
        FuncDecl 29 43 [] (Some (Ident 2 34 ''main'')) [Other [], Other []],
        FuncDecl 45 61 [] (Some (Ident 3 50 ''helper'')) [Other [], Other []],
        FuncDecl 63 79 [] (Some (Ident 4 68 ''Public'')) [Other [], Other []]]"

definition libPackage :: PackageT where
  "libPackage =
     \<lparr>PkgPath = ''lib'', PName = ''lib'', Syntax = [libFile],
      CompiledGoFiles = [''/p/lib.go''], Errors = [], Uses = Map.empty\<rparr>"

definition libLoaded :: Analyzer where
  "libLoaded = (NewAnalyzer exampleConfig exampleFileSet)\<lparr>packages := [libPackage]\<rparr>"

definition libState :: Analyzer where
  "libState = findSymbols libLoaded"

definition libOrder :: "string list" where
  "libOrder = [''lib.helper.function'', ''lib.Public.function'', ''lib.main.function'',
               ''lib.init.function'']"

lemma libState_eq:
  "libState = libLoaded\<lparr>symbols :=
     [''lib.init.function'' \<mapsto> mkSymbol libLoaded libPackage ''init'' ''function'' ''/p/lib.go'' 13 27,
      ''lib.main.function'' \<mapsto> mkSymbol libLoaded libPackage ''main'' ''function'' ''/p/lib.go'' 29 43,
      ''lib.helper.function'' \<mapsto> mkSymbol libLoaded libPackage ''helper'' ''function'' ''/p/lib.go'' 45 61,
      ''lib.Public.function'' \<mapsto> mkSymbol libLoaded libPackage ''Public'' ''function'' ''/p/lib.go'' 63 79]\<rparr>"
  by (simp add: libState_def findSymbols_def libLoaded_def NewAnalyzer_def
      findSymbolsInPackage_def libPackage_def enumerate_eq_zip findSymbolsInFile_def Inspect.simps
      libFile_def Let_def getSymbolKey_def optIdent_def mkSymbol_def)

lemma libState_no_main: "list_all (\<lambda>pkg. PName pkg \<noteq> ''main'') (packages libState)"
  by (simp add: libState_eq libLoaded_def libPackage_def)

lemma libState_mainPackages: "mainPackages libState = []"
  by (simp add: libState_eq libLoaded_def NewAnalyzer_def)

lemma libState_sched: "rangeSched (identifyMainPackages libState) (\<lambda>i. libOrder)"
  by (auto simp: rangeSched_def rangeOrder_def identifyMainPackages_closed libState_eq
      libLoaded_def NewAnalyzer_def libPackage_def libOrder_def)

lemma libState_queue:
  "fst (findEntryPoints (\<lambda>i. libOrder) (identifyMainPackages libState))
     = [''lib.main.function'', ''lib.init.function'', ''lib.Public.function'']"
  unfolding libState_eq by code_simp

text \<open>
  Claim C10. When no retained package is named \<open>main\<close> and no entry-point package has
  been chosen yet, the selector makes every retained package an entry-point package.
  Then, for every retained package, the key of its \<open>main\<close> function and the key of its
  \<open>init\<close> function, when the table has a symbol under it, is put on the queue and is
  reachable after tracing; and every exported symbol of the package is reachable after
  tracing and, unless it was reachable before, is put on the queue.
\<close>

theorem C10_library_mode:
  assumes "list_all (\<lambda>pkg. PName pkg \<noteq> ''main'') (packages a)"
    and "mainPackages a = []"
    and "rangeSched (identifyMainPackages a) sched"
  shows "mainPackages (identifyMainPackages a) = packages a
         \<and> (\<forall>pkg \<in> set (packages a). \<forall>k.
               symbols a k \<noteq> None
               \<and> (k = getSymbolKey (PkgPath pkg) ''main'' ''function''
                  \<or> k = getSymbolKey (PkgPath pkg) ''init'' ''function'')
               \<longrightarrow> k \<in> set (fst (findEntryPoints sched (identifyMainPackages a)))
                   \<and> k \<in> reachable (traceReachability sched (identifyMainPackages a)))
         \<and> (\<forall>pkg \<in> set (packages a). \<forall>k s.
               symbols a k = Some s \<and> Package s = PkgPath pkg \<and> Exported s
               \<longrightarrow> k \<in> reachable (traceReachability sched (identifyMainPackages a))
                   \<and> (k \<in> reachable a
                       \<or> k \<in> set (fst (findEntryPoints sched (identifyMainPackages a)))))"
proof -
  let ?a = "identifyMainPackages a"
  from assms(1) have "filter (\<lambda>pkg. PName pkg = ''main'') (packages a) = []"
    by (induction "packages a") (auto simp: list_all_iff filter_empty_conv)
  with assms(2) have lib: "?a = a\<lparr>mainPackages := packages a\<rparr>"
    by (simp add: identifyMainPackages_closed)
  have q: "set (fst (findEntryPoints sched ?a)) = rootQueue ?a"
    by (rule findEntryPoints_closed(2) [OF assms(3)])
  have r: "reachable (traceReachability sched ?a) = tracedSet ?a"
    by (simp add: traceReachability_closed [OF assms(3)])
  have mi: "mainInitRoots ?a (mainPackages ?a) = mainInitRoots a (packages a)"
    by (simp add: lib mainInitRoots_def)
  have ex: "exportedRoots ?a (mainPackages ?a) = exportedRoots a (packages a)"
    by (simp add: lib exportedRoots_def)
  have re: "reachable ?a = reachable a"
    by (simp add: lib)
  have p1: "mainPackages ?a = packages a"
    by (simp add: lib)
  have p2: "k \<in> set (fst (findEntryPoints sched ?a)) \<and> k \<in> reachable (traceReachability sched ?a)"
    if "pkg \<in> set (packages a)" and "symbols a k \<noteq> None"
      and "k = getSymbolKey (PkgPath pkg) ''main'' ''function''
           \<or> k = getSymbolKey (PkgPath pkg) ''init'' ''function''"
    for pkg k
  proof -
    from that have "k \<in> mainInitRoots a (packages a)"
      unfolding mainInitRoots_def by blast
    then have "k \<in> rootQueue ?a"
      by (simp add: rootQueue_def mi)
    then show ?thesis
      unfolding q r
      using rootQueue_subset_rootMarks [of ?a] rootMarks_subset_tracedSet [of ?a] by blast
  qed
  have p3: "k \<in> reachable (traceReachability sched ?a)
            \<and> (k \<in> reachable a \<or> k \<in> set (fst (findEntryPoints sched ?a)))"
    if "pkg \<in> set (packages a)" and "symbols a k = Some s" and "Package s = PkgPath pkg"
      and "Exported s"
    for pkg k s
  proof -
    from that have "k \<in> exportedRoots a (packages a)"
      unfolding exportedRoots_def by blast
    then have "k \<in> rootMarks ?a" and "k \<in> reachable a \<or> k \<in> rootQueue ?a"
      by (auto simp: rootMarks_def rootQueue_def ex re)
    then show ?thesis
      unfolding q r using rootMarks_subset_tracedSet [of ?a] by blast
  qed
  from p1 p2 p3 show ?thesis by blast
qed

theorem C10_library_mode_witness:
  "list_all (\<lambda>pkg. PName pkg \<noteq> ''main'') (packages libState)
   \<and> mainPackages libState = []
   \<and> rangeSched (identifyMainPackages libState) (\<lambda>i. libOrder)
   \<and> mainPackages (identifyMainPackages libState) = [libPackage]
   \<and> fst (findEntryPoints (\<lambda>i. libOrder) (identifyMainPackages libState))
       = [''lib.main.function'', ''lib.init.function'', ''lib.Public.function'']
   \<and> ''lib.main.function'' \<in> reachable (traceReachability (\<lambda>i. libOrder) (identifyMainPackages libState))
   \<and> ''lib.init.function'' \<in> reachable (traceReachability (\<lambda>i. libOrder) (identifyMainPackages libState))
   \<and> ''lib.Public.function'' \<in> reachable (traceReachability (\<lambda>i. libOrder) (identifyMainPackages libState))"
proof -
  note c = C10_library_mode [OF libState_no_main libState_mainPackages libState_sched]
  have pk: "packages libState = [libPackage]"
    by (simp add: libState_eq libLoaded_def)
  have path: "PkgPath libPackage = ''lib''"
    by (simp add: libPackage_def)
  have s1: "symbols libState ''lib.main.function'' \<noteq> None"
    and s2: "symbols libState ''lib.init.function'' \<noteq> None"
    by (simp_all add: libState_eq)
  have s3: "symbols libState ''lib.Public.function''
      = Some (mkSymbol libLoaded libPackage ''Public'' ''function'' ''/p/lib.go'' 63 79)"
    by (simp add: libState_eq)
  have s4: "Package (mkSymbol libLoaded libPackage ''Public'' ''function'' ''/p/lib.go'' 63 79) = ''lib''"
    "Exported (mkSymbol libLoaded libPackage ''Public'' ''function'' ''/p/lib.go'' 63 79)"
    by (simp_all add: mkSymbol_def libPackage_def IsExported_def Let_def)
  from c have m: "mainPackages (identifyMainPackages libState) = [libPackage]"
    by (simp add: pk)
  from c s1 have r1: "''lib.main.function''
      \<in> reachable (traceReachability (\<lambda>i. libOrder) (identifyMainPackages libState))"
    by (simp add: pk path getSymbolKey_def)
  from c s2 have r2: "''lib.init.function''
      \<in> reachable (traceReachability (\<lambda>i. libOrder) (identifyMainPackages libState))"
    by (simp add: pk path getSymbolKey_def)
  from c s3 s4 have r3: "''lib.Public.function''
      \<in> reachable (traceReachability (\<lambda>i. libOrder) (identifyMainPackages libState))"
    by (simp add: pk path)
  from libState_no_main libState_mainPackages libState_sched libState_queue m r1 r2 r3
  show ?thesis by blast
qed


section \<open>References to symbols outside the table\<close>

text \<open>
  A program that calls a library function:
  \<^verbatim>\<open>
  package main
  import "fmt"
  func main() { fmt.Println("hi") }
  \<close>
  The loader resolves \<open>fmt\<close> to the imported package name (an object of the importing
  package that is none of the four kinds) and \<open>Println\<close> to a function of package
  \<open>fmt\<close>.
\<close>

definition helloFile :: node where
  "helloFile =
     File (Ident 0 8 ''main'')
       [GenDecl 14 26 token_IMPORT [Other [Other []]],
        FuncDecl 28 60 [] (Some (Ident 1 33 ''main''))
          [Other [],
           Other [Other [Other [SelectorExpr (IdentNode (Ident 2 42 ''fmt'')) (Ident 3 46 ''Println''),
                                Other []]]]]]"

definition helloPackage :: PackageT where
  "helloPackage =
     \<lparr>PkgPath = ''app'', PName = ''main'', Syntax = [helloFile],
      CompiledGoFiles = [''/p/main.go''], Errors = [],
      Uses = [2 \<mapsto> \<lparr>OName = ''fmt'', OPkg = Some ''app'', OClass = OtherObject\<rparr>,
              3 \<mapsto> \<lparr>OName = ''Println'', OPkg = Some ''fmt'', OClass = Func\<rparr>]\<rparr>"

definition helloLoaded :: Analyzer where
  "helloLoaded = (NewAnalyzer exampleConfig exampleFileSet)\<lparr>packages := [helloPackage]\<rparr>"

text \<open>The state the tracer starts from: stages L, S, R and E have run.\<close>

definition helloState :: Analyzer where
  "helloState = identifyMainPackages (findReferences (findSymbols helloLoaded))"

lemma helloLoaded_load:
  "loadProject (\<lambda>pattern path. False) ([helloPackage], None)
     (NewAnalyzer exampleConfig exampleFileSet) = Inr helloLoaded"
  by (simp add: loadProject_def keepPackage_def isPackageExcluded_def helloPackage_def
      NewAnalyzer_def exampleConfig_def helloLoaded_def)

lemma helloState_eq:
  "helloState = helloLoaded\<lparr>
     symbols := [''app.main.function'' \<mapsto>
        mkSymbol helloLoaded helloPackage ''main'' ''function'' ''/p/main.go'' 28 60],
     references :=
       [''fmt.Println.function'' \<mapsto>
          [\<lparr>RFile = ''/p/main.go'', RPosition = exampleFileSet 46\<rparr>,
           \<lparr>RFile = ''/p/main.go'', RPosition = exampleFileSet 46\<rparr>],
        ''app.fmt.unknown'' \<mapsto> [\<lparr>RFile = ''/p/main.go'', RPosition = exampleFileSet 42\<rparr>]],
     mainPackages := [helloPackage]\<rparr>"
  apply (simp add: helloState_def identifyMainPackages_def findSymbols_def findReferences_def
      helloLoaded_def NewAnalyzer_def findSymbolsInPackage_def helloPackage_def enumerate_eq_zip
      findSymbolsInFile_def findReferencesInFile_def Inspect.simps helloFile_def Let_def
      getSymbolKey_def optIdent_def mkSymbol_def processIdentReference_def addReference_def
      objectKey_def getObjectKind_def exampleFileSet_def)
  apply (rule ext)
  apply simp
  done

lemma helloState_sched: "rangeSched helloState (\<lambda>i. [''app.main.function''])"
  by (simp add: rangeSched_def rangeOrder_def helloState_eq)

lemma helloState_edges:
  "findReferencedSymbols helloState ''app.main.function''
     = [''fmt.Println.function'', ''app.fmt.unknown'', ''fmt.Println.function'']"
  unfolding helloState_eq by code_simp

lemma helloState_traced:
  "reachable (traceReachability (\<lambda>i. [''app.main.function'']) helloState)
     = {''app.main.function'', ''fmt.Println.function'', ''app.fmt.unknown''}"
  unfolding helloState_eq by code_simp

lemma helloState_trace:
  "traceReachability (\<lambda>i. [''app.main.function'']) helloState
     = helloState\<lparr>reachable := {''app.main.function'', ''fmt.Println.function'', ''app.fmt.unknown''}\<rparr>"
proof -
  have c: "traceReachability (\<lambda>i. [''app.main.function'']) helloState
      = helloState\<lparr>reachable := tracedSet helloState\<rparr>"
    by (rule traceReachability_closed [OF helloState_sched])
  then have "reachable (traceReachability (\<lambda>i. [''app.main.function'']) helloState)
      = tracedSet helloState"
    by simp
  with helloState_traced c show ?thesis by simp
qed

text \<open>
  Claim C1 at this program: after tracing, the reachable set holds the keys of
  \<open>fmt.Println\<close> and of the package name \<open>fmt\<close>, the targets of the edges of \<open>main\<close>,
  though the symbol table has no entry for either; the reachable set is not a subset of
  the table's keys.
\<close>

theorem C1_unknown_target_marked:
  "findReferencedSymbols helloState ''app.main.function''
     = [''fmt.Println.function'', ''app.fmt.unknown'', ''fmt.Println.function'']
   \<and> dom (symbols helloState) = {''app.main.function''}
   \<and> reachable (traceReachability (\<lambda>i. [''app.main.function'']) helloState)
       = {''app.main.function'', ''fmt.Println.function'', ''app.fmt.unknown''}
   \<and> \<not> reachable (traceReachability (\<lambda>i. [''app.main.function'']) helloState)
         \<subseteq> dom (symbols (traceReachability (\<lambda>i. [''app.main.function'']) helloState))"
proof -
  have d: "dom (symbols helloState) = {''app.main.function''}"
    by (simp add: helloState_eq)
  have "\<not> {''app.main.function'', ''fmt.Println.function'', ''app.fmt.unknown''}
          \<subseteq> {''app.main.function''}"
    by simp
  then have "\<not> reachable (traceReachability (\<lambda>i. [''app.main.function'']) helloState)
         \<subseteq> dom (symbols (traceReachability (\<lambda>i. [''app.main.function'']) helloState))"
    by (simp add: helloState_trace d)
  with helloState_edges d helloState_traced show ?thesis by blast
qed

text \<open>
  Claim C2 at this program: the pipeline reports one symbol in total, three reachable
  symbols and no orphan, so the reachable count plus the orphan count exceeds the total.
\<close>

theorem C2_reachable_count_exceeds_total:
  "Analyze (\<lambda>pattern path. False) ([helloPackage], None) (\<lambda>i. [''app.main.function''])
     [''app.main.function''] (NewAnalyzer exampleConfig exampleFileSet)
   = Inr \<lparr>ResProjectPath = ''/p'', TotalSymbols = 1, ReachableSymbols = 3, MainPackages = 1,
          OrphanedSymbols = [], ExcludedPackages = [], IncludedTests = False\<rparr>"
proof -
  let ?R = "{''app.main.function'', ''fmt.Println.function'', ''app.fmt.unknown''}"
  have total: "card (dom (symbols helloState)) = 1"
    by (simp add: helloState_eq)
  have reach: "card ?R = 3"
    by simp
  have orph: "findOrphans [''app.main.function''] (helloState\<lparr>reachable := ?R\<rparr>) = []"
    by (simp add: findOrphans_def orphanStep_def helloState_eq)
  have cfg: "config helloState = exampleConfig" and mp: "mainPackages helloState = [helloPackage]"
    by (simp_all add: helloState_eq helloLoaded_def NewAnalyzer_def)
  show ?thesis
    unfolding Analyze_def helloLoaded_load
    by (simp add: Let_def helloState_trace total orph cfg mp exampleConfig_def
        flip: helloState_def)
qed


section \<open>Properties of the symbol extractor\<close>

text \<open>The (name, kind) pairs a specification and a declaration node declare.\<close>

definition valueKind :: "token \<Rightarrow> string" where
  "valueKind tok = (if tok = token_CONST then ''constant'' else ''variable'')"

definition namedAs :: "string \<Rightarrow> ident option \<Rightarrow> (string \<times> string) list" where
  "namedAs kind nm =
     (case nm of None \<Rightarrow> []
      | Some name \<Rightarrow> if IName name = ''_'' then [] else [(IName name, kind)])"

fun specNames :: "token \<Rightarrow> node \<Rightarrow> (string \<times> string) list" where
  "specNames tok (TypeSpec p e nm rest) = namedAs ''type'' nm"
| "specNames tok (ValueSpec p e nms rest) = concat (map (namedAs (valueKind tok)) nms)"
| "specNames tok n = []"

fun declNames :: "node \<Rightarrow> (string \<times> string) list" where
  "declNames (FuncDecl p e recv nm rest) = namedAs ''function'' nm"
| "declNames (GenDecl p e tok specs) = concat (map (specNames tok) specs)"
| "declNames n = []"

definition keysOf :: "PackageT \<Rightarrow> (string \<times> string) list \<Rightarrow> string set" where
  "keysOf pkg nks = (\<lambda>nk. getSymbolKey (PkgPath pkg) (fst nk) (snd nk)) ` set nks"

text \<open>
  The reading of the specification: the keys of the declarations that are top-level in a
  file, that is, the file's own list of declarations.
\<close>

fun topLevelKeys :: "PackageT \<Rightarrow> node \<Rightarrow> string set" where
  "topLevelKeys pkg (File nm decls) = keysOf pkg (concat (map declNames decls))"
| "topLevelKeys pkg n = {}"

lemma keysOf_append [simp]: "keysOf pkg (xs @ ys) = keysOf pkg xs \<union> keysOf pkg ys"
  by (auto simp: keysOf_def)

lemma keysOf_Nil [simp]: "keysOf pkg [] = {}"
  by (simp add: keysOf_def)

lemma keysOf_concat: "keysOf pkg (concat xss) = (\<Union>xs \<in> set xss. keysOf pkg xs)"
  by (induction xss) simp_all

lemma namedAs_simps [simp]:
  "namedAs kind None = []"
  "namedAs kind (Some name) = (if IName name = ''_'' then [] else [(IName name, kind)])"
  by (simp_all add: namedAs_def)

lemma keysOf_single [simp]:
  "keysOf pkg [(name, kind)] = {getSymbolKey (PkgPath pkg) name kind}"
  by (simp add: keysOf_def)

lemma dom_processFunctionDecl:
  "dom (symbols (processFunctionDecl pkg (FuncDecl p e recv nm rest) filename a))
     = dom (symbols a) \<union> keysOf pkg (namedAs ''function'' nm)"
  by (cases nm) (simp_all add: Let_def)

lemma dom_processTypeSpec:
  "dom (symbols (processTypeSpec pkg (TypeSpec p e nm rest) filename a))
     = dom (symbols a) \<union> keysOf pkg (namedAs ''type'' nm)"
  by (cases nm) (simp_all add: Let_def)

lemma dom_processValueName:
  "dom (symbols (processValueName pkg tok filename nm a))
     = dom (symbols a) \<union> keysOf pkg (namedAs (valueKind tok) nm)"
  by (cases nm) (simp_all add: processValueName_def valueKind_def Let_def)

lemma dom_fold_processValueName:
  "dom (symbols (fold (processValueName pkg tok filename) nms a))
     = dom (symbols a) \<union> keysOf pkg (concat (map (namedAs (valueKind tok)) nms))"
  by (induction nms arbitrary: a) (auto simp: dom_processValueName)

lemma dom_processSpec:
  "dom (symbols (processSpec pkg tok filename spec a))
     = dom (symbols a) \<union> keysOf pkg (specNames tok spec)"
proof (cases spec)
  case (TypeSpec p e nm rest)
  then show ?thesis
    using dom_processTypeSpec [of pkg p e nm rest filename a]
    by (simp del: processTypeSpec.simps)
next
  case (ValueSpec p e nms rest)
  then show ?thesis
    by (simp add: dom_fold_processValueName)
qed simp_all

lemma dom_fold_processSpec:
  "dom (symbols (fold (processSpec pkg tok filename) specs a))
     = dom (symbols a) \<union> keysOf pkg (concat (map (specNames tok) specs))"
  by (induction specs arbitrary: a) (auto simp: dom_processSpec)

lemma symbolVisitor_fst: "fst (symbolVisitor pkg filename n a)"
  by (cases n) simp_all

lemma dom_symbolVisitor:
  "dom (symbols (snd (symbolVisitor pkg filename n a))) = dom (symbols a) \<union> keysOf pkg (declNames n)"
proof (cases n)
  case (FuncDecl p e recv nm rest)
  then show ?thesis
    using dom_processFunctionDecl [of pkg p e recv nm rest filename a]
    by (simp del: processFunctionDecl.simps)
next
  case (GenDecl p e tok specs)
  then show ?thesis
    by (simp add: dom_fold_processSpec)
qed simp_all

lemma findSymbolsInFile_fold:
  "findSymbolsInFile pkg file filename a
     = fold (\<lambda>n t. snd (symbolVisitor pkg filename n t)) (preorder file) a"
  by (simp add: findSymbolsInFile_def Inspect_no_prune symbolVisitor_fst)

lemma dom_findSymbolsInFile:
  "dom (symbols (findSymbolsInFile pkg file filename a))
     = dom (symbols a) \<union> (\<Union>n \<in> set (preorder file). keysOf pkg (declNames n))"
proof -
  have "dom (symbols (fold (\<lambda>n t. snd (symbolVisitor pkg filename n t)) ns a))
        = dom (symbols a) \<union> (\<Union>n \<in> set ns. keysOf pkg (declNames n))" for ns a
    by (induction ns arbitrary: a) (auto simp: dom_symbolVisitor)
  then show ?thesis by (simp add: findSymbolsInFile_fold)
qed

text \<open>The trees of a package that have a compiled file at their index.\<close>

definition indexedFiles :: "PackageT \<Rightarrow> node list" where
  "indexedFiles pkg = take (length (CompiledGoFiles pkg)) (Syntax pkg)"

lemma dom_findSymbolsInPackage:
  "dom (symbols (findSymbolsInPackage pkg a))
     = dom (symbols a)
       \<union> (\<Union>file \<in> set (indexedFiles pkg). \<Union>n \<in> set (preorder file). keysOf pkg (declNames n))"
proof -
  let ?step = "\<lambda>(i, file) a.
             if i < length (CompiledGoFiles pkg)
             then findSymbolsInFile pkg file (CompiledGoFiles pkg ! i) a
             else a"
  let ?K = "\<lambda>file. \<Union>n \<in> set (preorder file). keysOf pkg (declNames n)"
  have "dom (symbols (fold ?step (List.enumerate k files) a))
        = dom (symbols a) \<union> (\<Union>file \<in> set (take (length (CompiledGoFiles pkg) - k) files). ?K file)"
    for k files a
  proof (induction files arbitrary: k a)
    case Nil
    show ?case by simp
  next
    case (Cons f files)
    show ?case
    proof (cases "k < length (CompiledGoFiles pkg)")
      case True
      then obtain d where d: "length (CompiledGoFiles pkg) - k = Suc d"
        by (metis Suc_diff_Suc)
      then have "length (CompiledGoFiles pkg) - Suc k = d" by simp
      with True d show ?thesis
        by (auto simp: Cons.IH dom_findSymbolsInFile)
    next
      case False
      then show ?thesis
        by (simp add: Cons.IH)
    qed
  qed
  from this [of 0 "Syntax pkg" a] show ?thesis
    by (simp add: findSymbolsInPackage_def indexedFiles_def)
qed

lemma packages_findSymbolsInPackage [simp]:
  "packages (findSymbolsInPackage pkg a) = packages a"
proof -
  have v: "packages (snd (symbolVisitor p filename n t)) = packages t" for p filename n t
  proof (cases n)
    case (FuncDecl p' e recv nm rest)
    then show ?thesis by (simp add: Let_def split: option.splits)
  next
    case (GenDecl p' e tok specs)
    have n: "packages (fold (processValueName p tok filename) nms t) = packages t" for nms t
      by (induction nms arbitrary: t)
         (simp_all add: processValueName_def Let_def split: option.splits)
    have s: "packages (processSpec p tok filename spec t) = packages t" for spec t
      by (cases spec) (simp_all add: n Let_def split: option.splits)
    have "packages (fold (processSpec p tok filename) specs t) = packages t" for t
      by (induction specs arbitrary: t) (simp_all add: s)
    with GenDecl show ?thesis by simp
  qed simp_all
  have f: "packages (fold (\<lambda>n t. snd (symbolVisitor p filename n t)) ns t) = packages t"
    for p filename ns t
    by (induction ns arbitrary: t) (simp_all add: v)
  have "packages (fold (\<lambda>(i, file) a.
             if i < length (CompiledGoFiles pkg)
             then findSymbolsInFile pkg file (CompiledGoFiles pkg ! i) a
             else a) xs a) = packages a" for xs a
    by (induction xs arbitrary: a) (auto simp: findSymbolsInFile_fold f)
  then show ?thesis by (simp add: findSymbolsInPackage_def)
qed

lemma dom_findSymbols:
  "dom (symbols (findSymbols a))
     = dom (symbols a)
       \<union> (\<Union>pkg \<in> set (packages a). \<Union>file \<in> set (indexedFiles pkg).
            \<Union>n \<in> set (preorder file). keysOf pkg (declNames n))"
proof -
  have "dom (symbols (fold findSymbolsInPackage pkgs a))
        = dom (symbols a)
          \<union> (\<Union>pkg \<in> set pkgs. \<Union>file \<in> set (indexedFiles pkg).
               \<Union>n \<in> set (preorder file). keysOf pkg (declNames n))" for pkgs a
    by (induction pkgs arbitrary: a) (auto simp: dom_findSymbolsInPackage)
  then show ?thesis by (simp add: findSymbols_def)
qed


text \<open>
  A declaration inside a function body:
  \<^verbatim>\<open>
  package main
  func main() { const limit = 3; _ = limit }
  \<close>
\<close>

definition nestedFile :: node where
  "nestedFile =
     File (Ident 0 8 ''main'')
       [FuncDecl 14 58 [] (Some (Ident 1 19 ''main''))
          [Other [],
           Other [Other [GenDecl 28 43 token_CONST
                           [ValueSpec 34 43 [Some (Ident 2 34 ''limit'')] [Other []]]],
                  Other [IdentNode (Ident 3 45 ''_''), IdentNode (Ident 4 49 ''limit'')]]]]"

definition nestedPackage :: PackageT where
  "nestedPackage =
     \<lparr>PkgPath = ''app'', PName = ''main'', Syntax = [nestedFile],
      CompiledGoFiles = [''/p/main.go''], Errors = [],
      Uses = [4 \<mapsto> \<lparr>OName = ''limit'', OPkg = Some ''app'', OClass = Const\<rparr>]\<rparr>"

definition nestedLoaded :: Analyzer where
  "nestedLoaded = (NewAnalyzer exampleConfig exampleFileSet)\<lparr>packages := [nestedPackage]\<rparr>"

lemma nestedLoaded_symbols:
  "symbols (findSymbols nestedLoaded) =
     [''app.main.function'' \<mapsto>
        mkSymbol nestedLoaded nestedPackage ''main'' ''function'' ''/p/main.go'' 14 58,
      ''app.limit.constant'' \<mapsto>
        mkSymbol nestedLoaded nestedPackage ''limit'' ''constant'' ''/p/main.go'' 34 39]"
  by (simp add: findSymbols_def nestedLoaded_def NewAnalyzer_def findSymbolsInPackage_def
      nestedPackage_def enumerate_eq_zip findSymbolsInFile_def Inspect.simps nestedFile_def
      Let_def getSymbolKey_def optIdent_def mkSymbol_def processValueName_def ident_End_def)

text \<open>
  Claim C4, as stated, fails: the constant \<open>limit\<close>, declared inside the body of \<open>main\<close>,
  yields a symbol, so the table's keys are not the keys of the top-level declarations.
\<close>

theorem C4_nested_declaration_counterexample:
  "dom (symbols (findSymbols nestedLoaded)) = {''app.limit.constant'', ''app.main.function''}
   \<and> topLevelKeys nestedPackage nestedFile = {''app.main.function''}
   \<and> dom (symbols (findSymbols nestedLoaded)) \<noteq> topLevelKeys nestedPackage nestedFile"
proof -
  have d: "dom (symbols (findSymbols nestedLoaded)) = {''app.limit.constant'', ''app.main.function''}"
    by (simp add: nestedLoaded_symbols)
  have t: "topLevelKeys nestedPackage nestedFile = {''app.main.function''}"
    by (simp add: nestedFile_def nestedPackage_def getSymbolKey_def)
  have "{''app.limit.constant'', ''app.main.function''} \<noteq> {''app.main.function''}"
    by auto
  with d t show ?thesis by simp
qed

text \<open>
  Claim C4, amended. The keys the extractor adds to the symbol table are exactly the keys
  \<open><package>.<name>.<kind>\<close> of the declarations found at any depth of the trees of the
  retained packages that have a compiled file at their index: every function declaration
  with a name other than the blank one, and every type and value specification of every
  general declaration, one key per declared name other than the blank one, whether the
  declaration is top-level or inside a function body.
\<close>

theorem C4_symbols_any_depth:
  "dom (symbols (findSymbols a)) =
     dom (symbols a)
     \<union> {getSymbolKey (PkgPath pkg) name kind | pkg file n name kind.
          pkg \<in> set (packages a)
          \<and> file \<in> set (take (length (CompiledGoFiles pkg)) (Syntax pkg))
          \<and> n \<in> set (preorder file)
          \<and> (name, kind) \<in> set (declNames n)}"
proof -
  let ?L = "\<Union>pkg \<in> set (packages a). \<Union>file \<in> set (indexedFiles pkg).
            \<Union>n \<in> set (preorder file). keysOf pkg (declNames n)"
  let ?R = "{getSymbolKey (PkgPath pkg) name kind | pkg file n name kind.
          pkg \<in> set (packages a)
          \<and> file \<in> set (take (length (CompiledGoFiles pkg)) (Syntax pkg))
          \<and> n \<in> set (preorder file)
          \<and> (name, kind) \<in> set (declNames n)}"
  have "?L = ?R"
  proof (intro set_eqI iffI)
    fix k
    assume "k \<in> ?L"
    then obtain pkg fl n where m: "pkg \<in> set (packages a)" "fl \<in> set (indexedFiles pkg)"
      "n \<in> set (preorder fl)" and "k \<in> keysOf pkg (declNames n)"
      by blast
    then obtain nk where nk: "nk \<in> set (declNames n)"
      "k = getSymbolKey (PkgPath pkg) (fst nk) (snd nk)"
      unfolding keysOf_def by blast
    from m nk have "\<exists>pkg file n name kind.
          k = getSymbolKey (PkgPath pkg) name kind \<and> pkg \<in> set (packages a)
          \<and> file \<in> set (take (length (CompiledGoFiles pkg)) (Syntax pkg))
          \<and> n \<in> set (preorder file) \<and> (name, kind) \<in> set (declNames n)"
      by (intro exI [of _ pkg] exI [of _ fl] exI [of _ n] exI [of _ "fst nk"] exI [of _ "snd nk"])
         (simp add: indexedFiles_def)
    then show "k \<in> ?R" by simp
  next
    fix k
    assume "k \<in> ?R"
    then obtain pkg fl n name kind where m: "pkg \<in> set (packages a)"
      "fl \<in> set (indexedFiles pkg)" "n \<in> set (preorder fl)"
      and nk: "(name, kind) \<in> set (declNames n)" "k = getSymbolKey (PkgPath pkg) name kind"
      unfolding indexedFiles_def by blast
    from nk have "k \<in> keysOf pkg (declNames n)"
      unfolding keysOf_def by (intro image_eqI [of _ _ "(name, kind)"]) simp_all
    with m show "k \<in> ?L" by blast
  qed
  then show ?thesis
    by (simp only: dom_findSymbols)
qed

theorem C4_symbols_any_depth_witness:
  "GenDecl 28 43 token_CONST [ValueSpec 34 43 [Some (Ident 2 34 ''limit'')] [Other []]]
     \<in> set (preorder nestedFile)
   \<and> declNames (GenDecl 28 43 token_CONST [ValueSpec 34 43 [Some (Ident 2 34 ''limit'')] [Other []]])
       = [(''limit'', ''constant'')]
   \<and> ''app.limit.constant'' \<in> dom (symbols (findSymbols nestedLoaded))"
proof -
  let ?n = "GenDecl 28 43 token_CONST [ValueSpec 34 43 [Some (Ident 2 34 ''limit'')] [Other []]]"
  have n: "?n \<in> set (preorder nestedFile)"
    by (simp add: nestedFile_def preorder.simps optIdent_def)
  have d: "declNames ?n = [(''limit'', ''constant'')]"
    by (simp add: valueKind_def)
  have p: "nestedPackage \<in> set (packages nestedLoaded)"
    "nestedFile \<in> set (take (length (CompiledGoFiles nestedPackage)) (Syntax nestedPackage))"
    "getSymbolKey (PkgPath nestedPackage) ''limit'' ''constant'' = ''app.limit.constant''"
    by (simp_all add: nestedLoaded_def nestedPackage_def getSymbolKey_def)
  have "(''limit'', ''constant'') \<in> set (declNames ?n)"
    by (simp add: valueKind_def)
  with n p(1,2) have "\<exists>pkg file m name kind.
          getSymbolKey (PkgPath nestedPackage) ''limit'' ''constant''
            = getSymbolKey (PkgPath pkg) name kind \<and> pkg \<in> set (packages nestedLoaded)
          \<and> file \<in> set (take (length (CompiledGoFiles pkg)) (Syntax pkg))
          \<and> m \<in> set (preorder file) \<and> (name, kind) \<in> set (declNames m)"
    by (intro exI [of _ nestedPackage] exI [of _ nestedFile] exI [of _ ?n]
        exI [of _ "''limit''"] exI [of _ "''constant''"]) simp
  then have "getSymbolKey (PkgPath nestedPackage) ''limit'' ''constant''
      \<in> dom (symbols (findSymbols nestedLoaded))"
    unfolding C4_symbols_any_depth [of nestedLoaded] by simp
  with n d p(3) show ?thesis by simp
qed


section \<open>Positions of recorded symbols\<close>

text \<open>The line and column the file set gives for an offset.\<close>

definition positionOf :: "Analyzer \<Rightarrow> nat \<Rightarrow> Position" where
  "positionOf a p = \<lparr>Line = TLine (fileSet a p), Column = TColumn (fileSet a p)\<rparr>"

text \<open>
  Where a symbol comes from, among the nodes \<open>ns\<close>: a function declaration (the span is
  the declaration's), a type specification of a general declaration (the span is the
  specification's), or a name of a value specification of a general declaration (the
  span is the name identifier's).
\<close>

definition fromFunction :: "Analyzer \<Rightarrow> node list \<Rightarrow> Symbol \<Rightarrow> bool" where
  "fromFunction a ns s \<longleftrightarrow>
     (\<exists>p e recv name rest.
        FuncDecl p e recv (Some name) rest \<in> set ns
        \<and> Name s = IName name \<and> Kind s = ''function''
        \<and> Start s = positionOf a p \<and> End s = positionOf a e)"

definition typeRecord :: "Analyzer \<Rightarrow> node list \<Rightarrow> Symbol \<Rightarrow> bool" where
  "typeRecord a specs s \<longleftrightarrow>
     (\<exists>p e name rest.
        TypeSpec p e (Some name) rest \<in> set specs
        \<and> Name s = IName name \<and> Kind s = ''type''
        \<and> Start s = positionOf a p \<and> End s = positionOf a e)"

definition valueRecord :: "Analyzer \<Rightarrow> token \<Rightarrow> node list \<Rightarrow> Symbol \<Rightarrow> bool" where
  "valueRecord a tok specs s \<longleftrightarrow>
     (\<exists>p e nms rest name.
        ValueSpec p e nms rest \<in> set specs \<and> Some name \<in> set nms
        \<and> Name s = IName name \<and> Kind s = valueKind tok
        \<and> Start s = positionOf a (NamePos name) \<and> End s = positionOf a (ident_End name))"

definition fromType :: "Analyzer \<Rightarrow> node list \<Rightarrow> Symbol \<Rightarrow> bool" where
  "fromType a ns s \<longleftrightarrow>
     (\<exists>gp ge tok specs. GenDecl gp ge tok specs \<in> set ns \<and> typeRecord a specs s)"

definition fromValue :: "Analyzer \<Rightarrow> node list \<Rightarrow> Symbol \<Rightarrow> bool" where
  "fromValue a ns s \<longleftrightarrow>
     (\<exists>gp ge tok specs. GenDecl gp ge tok specs \<in> set ns \<and> valueRecord a tok specs s)"

definition recordedFrom :: "Analyzer \<Rightarrow> node list \<Rightarrow> Symbol \<Rightarrow> bool" where
  "recordedFrom a ns s \<longleftrightarrow> fromFunction a ns s \<or> fromType a ns s \<or> fromValue a ns s"

lemma mkSymbol_fields [simp]:
  "Name (mkSymbol a pkg name kind filename p e) = name"
  "Kind (mkSymbol a pkg name kind filename p e) = kind"
  "Symbol.File (mkSymbol a pkg name kind filename p e) = filename"
  "Package (mkSymbol a pkg name kind filename p e) = PkgPath pkg"
  "Exported (mkSymbol a pkg name kind filename p e) = IsExported name"
  "Start (mkSymbol a pkg name kind filename p e) = positionOf a p"
  "End (mkSymbol a pkg name kind filename p e) = positionOf a e"
  by (simp_all add: mkSymbol_def positionOf_def Let_def)

lemma positionOf_cong: "fileSet a = fileSet b \<Longrightarrow> positionOf a = positionOf b"
  by (rule ext) (simp add: positionOf_def)

lemma recordedFrom_cong: "fileSet a = fileSet b \<Longrightarrow> recordedFrom a ns s = recordedFrom b ns s"
  by (simp add: recordedFrom_def fromFunction_def fromType_def fromValue_def typeRecord_def
      valueRecord_def positionOf_cong [of a b])

lemma typeRecord_Cons:
  "typeRecord a (spec # specs) s \<longleftrightarrow> typeRecord a [spec] s \<or> typeRecord a specs s"
  unfolding typeRecord_def by (simp only: list.set insert_iff empty_iff) blast

lemma valueRecord_Cons:
  "valueRecord a tok (spec # specs) s \<longleftrightarrow> valueRecord a tok [spec] s \<or> valueRecord a tok specs s"
  unfolding valueRecord_def by (simp only: list.set insert_iff empty_iff) blast

lemma fromFunction_Cons:
  "fromFunction a (n # ns) s \<longleftrightarrow> fromFunction a [n] s \<or> fromFunction a ns s"
  unfolding fromFunction_def by (simp only: list.set insert_iff empty_iff) blast

lemma fromType_Cons: "fromType a (n # ns) s \<longleftrightarrow> fromType a [n] s \<or> fromType a ns s"
  unfolding fromType_def by (simp only: list.set insert_iff empty_iff) blast

lemma fromValue_Cons: "fromValue a (n # ns) s \<longleftrightarrow> fromValue a [n] s \<or> fromValue a ns s"
  unfolding fromValue_def by (simp only: list.set insert_iff empty_iff) blast

lemma recordedFrom_Cons:
  "recordedFrom a (n # ns) s \<longleftrightarrow> recordedFrom a [n] s \<or> recordedFrom a ns s"
  unfolding recordedFrom_def fromFunction_Cons [of a n ns] fromType_Cons [of a n ns]
    fromValue_Cons [of a n ns]
  by blast

text \<open>The visitor changes nothing but the symbol table.\<close>

lemma fileSet_processValueName [simp]:
  "fileSet (processValueName pkg tok filename nm a) = fileSet a"
  by (simp add: processValueName_def Let_def split: option.splits)

lemma fileSet_fold_processValueName [simp]:
  "fileSet (fold (processValueName pkg tok filename) nms a) = fileSet a"
  by (induction nms arbitrary: a) simp_all

lemma fileSet_processSpec [simp]: "fileSet (processSpec pkg tok filename spec a) = fileSet a"
  by (cases spec) (simp_all add: Let_def split: option.splits)

lemma fileSet_fold_processSpec [simp]:
  "fileSet (fold (processSpec pkg tok filename) specs a) = fileSet a"
  by (induction specs arbitrary: a) simp_all

lemma fileSet_symbolVisitor [simp]: "fileSet (snd (symbolVisitor pkg filename n a)) = fileSet a"
  by (cases n) (simp_all add: Let_def split: option.splits)

lemma fileSet_findSymbolsInFile [simp]: "fileSet (findSymbolsInFile pkg file filename a) = fileSet a"
proof -
  have "fileSet (fold (\<lambda>n t. snd (symbolVisitor pkg filename n t)) ns a) = fileSet a" for ns a
    by (induction ns arbitrary: a) simp_all
  then show ?thesis by (simp add: findSymbolsInFile_fold)
qed

lemma fileSet_findSymbolsInPackage [simp]: "fileSet (findSymbolsInPackage pkg a) = fileSet a"
proof -
  have "fileSet (fold (\<lambda>(i, file) a.
             if i < length (CompiledGoFiles pkg)
             then findSymbolsInFile pkg file (CompiledGoFiles pkg ! i) a
             else a) xs a) = fileSet a" for xs a
    by (induction xs arbitrary: a) auto
  then show ?thesis by (simp add: findSymbolsInPackage_def)
qed

text \<open>What each step records.\<close>

lemma processValueName_records:
  assumes "symbols (processValueName pkg tok filename nm a) k = Some s"
  shows "symbols a k = Some s
         \<or> (\<exists>name. nm = Some name \<and> Name s = IName name \<and> Kind s = valueKind tok
              \<and> Start s = positionOf a (NamePos name) \<and> End s = positionOf a (ident_End name))"
proof (cases nm)
  case None
  with assms show ?thesis by (simp add: processValueName_def)
next
  case (Some name)
  show ?thesis
  proof (cases "IName name = ''_''")
    case True
    with Some assms show ?thesis by (simp add: processValueName_def)
  next
    case False
    with Some assms show ?thesis
      by (auto simp: processValueName_def Let_def valueKind_def split: if_splits)
  qed
qed

lemma fold_processValueName_records:
  assumes "symbols (fold (processValueName pkg tok filename) nms a) k = Some s"
  shows "symbols a k = Some s
         \<or> (\<exists>name. Some name \<in> set nms \<and> Name s = IName name \<and> Kind s = valueKind tok
              \<and> Start s = positionOf a (NamePos name) \<and> End s = positionOf a (ident_End name))"
  using assms
proof (induction nms arbitrary: a)
  case Nil
  then show ?case by simp
next
  case (Cons nm nms)
  let ?a1 = "processValueName pkg tok filename nm a"
  have pos: "positionOf ?a1 = positionOf a"
    by (rule positionOf_cong) simp
  from Cons.prems have "symbols (fold (processValueName pkg tok filename) nms ?a1) k = Some s"
    by simp
  from Cons.IH [OF this] show ?case
    unfolding pos using processValueName_records [of pkg tok filename nm a k s] by auto
qed

lemma processSpec_records:
  assumes "symbols (processSpec pkg tok filename spec a) k = Some s"
  shows "symbols a k = Some s \<or> typeRecord a [spec] s \<or> valueRecord a tok [spec] s"
proof (cases spec)
  case (TypeSpec p e nm rest)
  with assms show ?thesis
    by (cases nm) (auto simp: Let_def typeRecord_def split: if_splits)
next
  case (ValueSpec p e nms rest)
  with assms have "symbols (fold (processValueName pkg tok filename) nms a) k = Some s"
    by simp
  from fold_processValueName_records [OF this] ValueSpec show ?thesis
    unfolding valueRecord_def by auto
qed (use assms in simp_all)

lemma fold_processSpec_records:
  assumes "symbols (fold (processSpec pkg tok filename) specs a) k = Some s"
  shows "symbols a k = Some s \<or> typeRecord a specs s \<or> valueRecord a tok specs s"
  using assms
proof (induction specs arbitrary: a)
  case Nil
  then show ?case by simp
next
  case (Cons spec specs)
  let ?a1 = "processSpec pkg tok filename spec a"
  have pos: "positionOf ?a1 = positionOf a"
    by (rule positionOf_cong) simp
  have ty: "typeRecord ?a1 specs s = typeRecord a specs s"
    by (simp add: typeRecord_def pos)
  have val: "valueRecord ?a1 tok specs s = valueRecord a tok specs s"
    by (simp add: valueRecord_def pos)
  from Cons.prems have "symbols (fold (processSpec pkg tok filename) specs ?a1) k = Some s"
    by simp
  from Cons.IH [OF this]
  have "symbols ?a1 k = Some s \<or> typeRecord a specs s \<or> valueRecord a tok specs s"
    unfolding ty val .
  then show ?case
    using processSpec_records [of pkg tok filename spec a k s]
    unfolding typeRecord_Cons [of a spec specs] valueRecord_Cons [of a tok spec specs]
    by blast
qed

lemma symbolVisitor_records:
  assumes "symbols (snd (symbolVisitor pkg filename n a)) k = Some s"
  shows "symbols a k = Some s \<or> recordedFrom a [n] s"
proof (cases n)
  case (FuncDecl p e recv nm rest)
  with assms show ?thesis
    by (cases nm) (auto simp: Let_def recordedFrom_def fromFunction_def split: if_splits)
next
  case (GenDecl p e tok specs)
  with assms have "symbols (fold (processSpec pkg tok filename) specs a) k = Some s"
    by simp
  from fold_processSpec_records [OF this] GenDecl show ?thesis
    unfolding recordedFrom_def fromType_def fromValue_def by auto
qed (use assms in simp_all)

lemma findSymbolsInFile_records:
  assumes "symbols (findSymbolsInFile pkg file filename a) k = Some s"
  shows "symbols a k = Some s \<or> recordedFrom a (preorder file) s"
proof -
  have "symbols t k = Some s \<or> recordedFrom t ns s"
    if "symbols (fold (\<lambda>n t. snd (symbolVisitor pkg filename n t)) ns t) k = Some s" for ns t
    using that
  proof (induction ns arbitrary: t)
    case Nil
    then show ?case by simp
  next
    case (Cons n ns)
    let ?t1 = "snd (symbolVisitor pkg filename n t)"
    from Cons.prems have "symbols (fold (\<lambda>n t. snd (symbolVisitor pkg filename n t)) ns ?t1) k = Some s"
      by simp
    from Cons.IH [OF this] have "symbols ?t1 k = Some s \<or> recordedFrom t ns s"
      using recordedFrom_cong [of ?t1 t ns s] by simp
    then show ?case
      using symbolVisitor_records [of pkg filename n t k s]
      unfolding recordedFrom_Cons [of t n ns] by blast
  qed
  with assms show ?thesis
    by (simp add: findSymbolsInFile_fold)
qed


lemma findSymbolsInPackage_records:
  assumes "symbols (findSymbolsInPackage pkg a) k = Some s"
  shows "symbols a k = Some s
         \<or> (\<exists>file \<in> set (indexedFiles pkg). recordedFrom a (preorder file) s)"
proof -
  let ?step = "\<lambda>(i, file) a.
             if i < length (CompiledGoFiles pkg)
             then findSymbolsInFile pkg file (CompiledGoFiles pkg ! i) a
             else a"
  have "symbols t k = Some s
        \<or> (\<exists>file \<in> set (take (length (CompiledGoFiles pkg) - j) files).
             recordedFrom t (preorder file) s)"
    if "symbols (fold ?step (List.enumerate j files) t) k = Some s" for j files t
    using that
  proof (induction files arbitrary: j t)
    case Nil
    then show ?case by simp
  next
    case (Cons f files)
    show ?case
    proof (cases "j < length (CompiledGoFiles pkg)")
      case True
      let ?t1 = "findSymbolsInFile pkg f (CompiledGoFiles pkg ! j) t"
      from True obtain d where d: "length (CompiledGoFiles pkg) - j = Suc d"
        by (metis Suc_diff_Suc)
      then have d': "length (CompiledGoFiles pkg) - Suc j = d" by simp
      from Cons.prems True have "symbols (fold ?step (List.enumerate (Suc j) files) ?t1) k = Some s"
        by simp
      from Cons.IH [OF this]
      have "symbols ?t1 k = Some s \<or> (\<exists>file \<in> set (take d files). recordedFrom t (preorder file) s)"
        unfolding d' using recordedFrom_cong [of ?t1 t] by simp
      then show ?thesis
        using findSymbolsInFile_records [of pkg f "CompiledGoFiles pkg ! j" t k s]
        unfolding d by auto
    next
      case False
      with Cons.prems have "symbols (fold ?step (List.enumerate (Suc j) files) t) k = Some s"
        by simp
      from Cons.IH [OF this] False show ?thesis by simp
    qed
  qed
  from this [of 0 "Syntax pkg" a] assms show ?thesis
    by (simp add: findSymbolsInPackage_def indexedFiles_def)
qed

lemma findSymbols_records:
  assumes "symbols (findSymbols a) k = Some s"
  shows "symbols a k = Some s
         \<or> (\<exists>pkg \<in> set (packages a). \<exists>file \<in> set (indexedFiles pkg).
              recordedFrom a (preorder file) s)"
proof -
  have "symbols t k = Some s
        \<or> (\<exists>pkg \<in> set pkgs. \<exists>file \<in> set (indexedFiles pkg). recordedFrom t (preorder file) s)"
    if "symbols (fold findSymbolsInPackage pkgs t) k = Some s" for pkgs t
    using that
  proof (induction pkgs arbitrary: t)
    case Nil
    then show ?case by simp
  next
    case (Cons pkg pkgs)
    let ?t1 = "findSymbolsInPackage pkg t"
    from Cons.prems have "symbols (fold findSymbolsInPackage pkgs ?t1) k = Some s"
      by simp
    from Cons.IH [OF this]
    have "symbols ?t1 k = Some s
        \<or> (\<exists>pkg \<in> set pkgs. \<exists>file \<in> set (indexedFiles pkg). recordedFrom t (preorder file) s)"
      using recordedFrom_cong [of ?t1 t] by simp
    then show ?case
      using findSymbolsInPackage_records [of pkg t k s] by auto
  qed
  with assms show ?thesis
    by (simp add: findSymbols_def)
qed

lemma symbols_identifyMainPackages [simp]: "symbols (identifyMainPackages a) = symbols a"
  by (simp add: identifyMainPackages_closed)

text \<open>
  Claim C6, as stated, fails: in the example program the variable \<open>Exported\<close> is
  declared by \<open>var Exported = 1\<close>, a declaration that spans offsets 72 to 88 with its
  value specification from 76 to 88; the recorded symbol ends at column 84, the end of
  the name, not at column 88, the end of the declaration.
\<close>

theorem C6_value_end_counterexample:
  "symbols (findSymbols appLoaded) ''app.Exported.variable''
     = Some (mkSymbol appLoaded appPackage ''Exported'' ''variable'' ''/p/main.go'' 76 84)
   \<and> GenDecl 72 88 token_VAR [ValueSpec 76 88 [Some (Ident 5 76 ''Exported'')] [Other []]]
       \<in> set (preorder appFile)
   \<and> End (mkSymbol appLoaded appPackage ''Exported'' ''variable'' ''/p/main.go'' 76 84)
       = \<lparr>Line = 1, Column = 84\<rparr>
   \<and> positionOf appLoaded 88 = \<lparr>Line = 1, Column = 88\<rparr>"
proof -
  have "symbols (findSymbols appLoaded) = symbols appState"
    by (simp add: appState_def)
  then have s: "symbols (findSymbols appLoaded) ''app.Exported.variable''
     = Some (mkSymbol appLoaded appPackage ''Exported'' ''variable'' ''/p/main.go'' 76 84)"
    by (simp add: appState_symbols)
  have n: "GenDecl 72 88 token_VAR [ValueSpec 76 88 [Some (Ident 5 76 ''Exported'')] [Other []]]
       \<in> set (preorder appFile)"
    by (simp add: appFile_def preorder.simps optIdent_def)
  have e: "End (mkSymbol appLoaded appPackage ''Exported'' ''variable'' ''/p/main.go'' 76 84)
       = \<lparr>Line = 1, Column = 84\<rparr>"
    and p: "positionOf appLoaded 88 = \<lparr>Line = 1, Column = 88\<rparr>"
    by (simp_all add: positionOf_def appLoaded_def NewAnalyzer_def exampleFileSet_def)
  from s n e p show ?thesis by blast
qed

text \<open>
  Claim C6, amended. Every symbol that the extractor records comes from a declaration
  found in a tree of a retained package, and its positions are: for a function, the
  start and the end of the function declaration; for a type, the start and the end of
  the type specification; for a variable or a constant, the start and the end of the
  name identifier in the value specification.
\<close>

theorem C6_symbol_positions:
  assumes "symbols (findSymbols a) k = Some s" and "symbols a k \<noteq> Some s"
  shows "\<exists>pkg \<in> set (packages a).
           \<exists>file \<in> set (take (length (CompiledGoFiles pkg)) (Syntax pkg)).
             (\<exists>p e recv name rest.
                FuncDecl p e recv (Some name) rest \<in> set (preorder file)
                \<and> Name s = IName name \<and> Kind s = ''function''
                \<and> Start s = positionOf a p \<and> End s = positionOf a e)
             \<or> (\<exists>gp ge tok specs p e name rest.
                  GenDecl gp ge tok specs \<in> set (preorder file)
                  \<and> TypeSpec p e (Some name) rest \<in> set specs
                  \<and> Name s = IName name \<and> Kind s = ''type''
                  \<and> Start s = positionOf a p \<and> End s = positionOf a e)
             \<or> (\<exists>gp ge tok specs p e nms rest name.
                  GenDecl gp ge tok specs \<in> set (preorder file)
                  \<and> ValueSpec p e nms rest \<in> set specs \<and> Some name \<in> set nms
                  \<and> Name s = IName name
                  \<and> Kind s = (if tok = token_CONST then ''constant'' else ''variable'')
                  \<and> Start s = positionOf a (NamePos name)
                  \<and> End s = positionOf a (ident_End name))"
proof -
  from findSymbols_records [OF assms(1)] assms(2)
  obtain pkg fl where "pkg \<in> set (packages a)" "fl \<in> set (indexedFiles pkg)"
    "recordedFrom a (preorder fl) s"
    by blast
  then show ?thesis
    unfolding recordedFrom_def fromFunction_def fromType_def fromValue_def typeRecord_def
      valueRecord_def valueKind_def indexedFiles_def
    by (intro bexI [of _ pkg] bexI [of _ fl]) blast+
qed


theorem C6_symbol_positions_witness:
  "symbols (findSymbols appLoaded) ''app.Exported.variable''
     = Some (mkSymbol appLoaded appPackage ''Exported'' ''variable'' ''/p/main.go'' 76 84)
   \<and> symbols appLoaded ''app.Exported.variable'' = None
   \<and> Start (mkSymbol appLoaded appPackage ''Exported'' ''variable'' ''/p/main.go'' 76 84)
       = \<lparr>Line = 1, Column = 76\<rparr>
   \<and> (\<exists>pkg \<in> set (packages appLoaded).
         \<exists>file \<in> set (take (length (CompiledGoFiles pkg)) (Syntax pkg)).
             (\<exists>p e recv name rest.
                FuncDecl p e recv (Some name) rest \<in> set (preorder file)
                \<and> Name (mkSymbol appLoaded appPackage ''Exported'' ''variable'' ''/p/main.go'' 76 84)
                    = IName name
                \<and> Kind (mkSymbol appLoaded appPackage ''Exported'' ''variable'' ''/p/main.go'' 76 84)
                    = ''function''
                \<and> Start (mkSymbol appLoaded appPackage ''Exported'' ''variable'' ''/p/main.go'' 76 84)
                    = positionOf appLoaded p
                \<and> End (mkSymbol appLoaded appPackage ''Exported'' ''variable'' ''/p/main.go'' 76 84)
                    = positionOf appLoaded e)
             \<or> (\<exists>gp ge tok specs p e name rest.
                  GenDecl gp ge tok specs \<in> set (preorder file)
                  \<and> TypeSpec p e (Some name) rest \<in> set specs
                  \<and> Name (mkSymbol appLoaded appPackage ''Exported'' ''variable'' ''/p/main.go'' 76 84)
                      = IName name
                  \<and> Kind (mkSymbol appLoaded appPackage ''Exported'' ''variable'' ''/p/main.go'' 76 84)
                      = ''type''
                  \<and> Start (mkSymbol appLoaded appPackage ''Exported'' ''variable'' ''/p/main.go'' 76 84)
                      = positionOf appLoaded p
                  \<and> End (mkSymbol appLoaded appPackage ''Exported'' ''variable'' ''/p/main.go'' 76 84)
                      = positionOf appLoaded e)
             \<or> (\<exists>gp ge tok specs p e nms rest name.
                  GenDecl gp ge tok specs \<in> set (preorder file)
                  \<and> ValueSpec p e nms rest \<in> set specs \<and> Some name \<in> set nms
                  \<and> Name (mkSymbol appLoaded appPackage ''Exported'' ''variable'' ''/p/main.go'' 76 84)
                      = IName name
                  \<and> Kind (mkSymbol appLoaded appPackage ''Exported'' ''variable'' ''/p/main.go'' 76 84)
                      = (if tok = token_CONST then ''constant'' else ''variable'')
                  \<and> Start (mkSymbol appLoaded appPackage ''Exported'' ''variable'' ''/p/main.go'' 76 84)
                      = positionOf appLoaded (NamePos name)
                  \<and> End (mkSymbol appLoaded appPackage ''Exported'' ''variable'' ''/p/main.go'' 76 84)
                      = positionOf appLoaded (ident_End name)))"
proof -
  let ?s = "mkSymbol appLoaded appPackage ''Exported'' ''variable'' ''/p/main.go'' 76 84"
  have "symbols (findSymbols appLoaded) = symbols appState"
    by (simp add: appState_def)
  then have h1: "symbols (findSymbols appLoaded) ''app.Exported.variable'' = Some ?s"
    by (simp add: appState_symbols)
  have none: "symbols appLoaded ''app.Exported.variable'' = None"
    by (simp add: appLoaded_def NewAnalyzer_def)
  then have h2: "symbols appLoaded ''app.Exported.variable'' \<noteq> Some ?s"
    by simp
  have st: "Start ?s = \<lparr>Line = 1, Column = 76\<rparr>"
    by (simp add: positionOf_def appLoaded_def NewAnalyzer_def exampleFileSet_def)
  from h1 none st C6_symbol_positions [OF h1 h2] show ?thesis
    by (intro conjI)
qed

end
